theory Spec2Isabelle
  imports Main "HOL-Library.Sublist"
begin

section \<open>Data model\<close>

text \<open>
  The two structs of \<^verbatim>\<open>main.go\<close> (lines 19-27). Go strings are byte sequences, compared
  byte by byte by \<^verbatim>\<open>==\<close>; they are modelled as \<^typ>\<open>string\<close>.
\<close>

record Asset =
  Name :: string
  BrowserDownloadURL :: string

record Release =
  TagName :: string
  Assets :: "Asset list"

text \<open>
  Errors are values. Each \<^verbatim>\<open>fmt.Errorf\<close> of the program has its own constructor;
  \<open>LibError\<close> carries the message of an error returned by a library or system call
  (\<^verbatim>\<open>net/http\<close>, \<^verbatim>\<open>encoding/json\<close>, \<^verbatim>\<open>bufio\<close>, \<^verbatim>\<open>os\<close>, \<^verbatim>\<open>os/exec\<close>).
\<close>

datatype error =
    NoReleasesFound
  | UnsupportedOS string
  | UnsupportedArch string
  | NoMatchingAsset string string
  | BadStatus string
  | LibError string

text \<open>The text of an error, as \<^verbatim>\<open>%v\<close> prints it.\<close>

fun Error :: "error \<Rightarrow> string" where
  "Error NoReleasesFound = ''no releases found''"
| "Error (UnsupportedOS goos) = ''unsupported operating system: '' @ goos"
| "Error (UnsupportedArch goarch) = ''unsupported architecture: '' @ goarch"
| "Error (NoMatchingAsset osName arch) =
     ''no matching asset found for '' @ osName @ ''/'' @ arch"
| "Error (BadStatus status) = ''bad status: '' @ status"
| "Error (LibError msg) = msg"

text \<open>The spec's name for the two errors of the platform switches.\<close>

fun UnsupportedPlatform :: "error \<Rightarrow> bool" where
  "UnsupportedPlatform (UnsupportedOS _) = True"
| "UnsupportedPlatform (UnsupportedArch _) = True"
| "UnsupportedPlatform _ = False"

section \<open>The environment of a run\<close>

text \<open>
  What the program observes of its host, and what the host answers to each library or
  system call. A response of \<^verbatim>\<open>http.Get\<close> carries the bytes its body delivers and the
  error, if any, with which the body stream ends after them.
\<close>

record response =
  StatusCode :: nat
  Status :: string
  ContentLength :: int
  Body :: string
  BodyErr :: "error option"

record world =
  GOOS :: string
  GOARCH :: string
  UserHomeDir :: "error + string"
  Getenv :: "string \<Rightarrow> string"
  httpGet :: "string \<Rightarrow> error + response"
  decodeReleases :: "response \<Rightarrow> error + Release list"
  mkdirAllErr :: "string \<Rightarrow> error option"
  createErr :: "string \<Rightarrow> error option"
  openFileErr :: "string \<Rightarrow> error option"
  writeErr :: "string \<Rightarrow> (nat \<times> error) option"
  renameErr :: "string \<Rightarrow> string \<Rightarrow> error option"
  chmodErr :: "string \<Rightarrow> error option"
  cmdRun :: "string \<Rightarrow> string list \<Rightarrow> error option"
  winJoinDir :: "string \<Rightarrow> string"
  winJoin :: "string \<Rightarrow> string \<Rightarrow> string"

text \<open>
  \<open>decodeReleases\<close> is \<^verbatim>\<open>json.NewDecoder(resp.Body).Decode(&releases)\<close>.
  \<open>writeErr w path = Some (n, e)\<close>: a write to \<open>path\<close> fails with \<open>e\<close> once \<open>n\<close> bytes
  are written. \<open>cmdRun\<close> is \<^verbatim>\<open>exec.Command(name, args...).Run()\<close>.
  \<open>winJoinDir\<close> and \<open>winJoin\<close> are \<^verbatim>\<open>filepath.Join\<close> on a windows host, see below.

  The observable effects of a run: the lines printed, the network requests and the
  commands started, in order; and the regular files of the file system with their
  contents (directories and permission bits are not tracked: \<^verbatim>\<open>os.MkdirAll\<close> and
  \<^verbatim>\<open>os.Chmod\<close> contribute their error results only).

  Each call of \<^verbatim>\<open>askForConfirmation\<close> creates its own \<^verbatim>\<open>bufio.Reader\<close> on standard
  input, and what a reader has buffered is lost with it; \<open>stdin\<close> lists, for the readers
  in the order of their creation, the bytes each of them obtains before end of file.
\<close>

datatype colour = Cyan | Red | Green | Yellow

datatype event =
    Print colour string
  | Printf string
  | HttpGet string
  | Exec string "string list"

record state =
  trace :: "event list"
  files :: "string \<rightharpoonup> string"
  stdin :: "string list"

definition emit :: "event \<Rightarrow> state \<Rightarrow> state" where
  "emit e s = s\<lparr>trace := trace s @ [e]\<rparr>"

fun isHttpGet :: "event \<Rightarrow> bool" where
  "isHttpGet (HttpGet _) = True"
| "isHttpGet _ = False"

text \<open>The network requests of a run.\<close>

definition requests :: "state \<Rightarrow> event list" where
  "requests s = filter isHttpGet (trace s)"

section \<open>Library functions\<close>

definition newline :: char where
  "newline = CHR 0x0A"

definition dquote :: char where
  "dquote = CHR 0x22"

definition squote :: char where
  "squote = CHR 0x27"

text \<open>
  \<^verbatim>\<open>reader.ReadString('\n')\<close> on a reader that obtains \<open>input\<close>: the bytes up to and
  including the first newline, no error, and what remains for the next read; without a
  newline, everything that is left together with the error \<^verbatim>\<open>io.EOF\<close>.
\<close>

definition ReadString :: "string \<Rightarrow> string \<times> error option \<times> string" where
  "ReadString input =
     (if newline \<in> set input
      then (takeWhile (\<lambda>c. c \<noteq> newline) input @ [newline], None,
            tl (dropWhile (\<lambda>c. c \<noteq> newline) input))
      else (input, Some (LibError ''EOF''), []))"

text \<open>
  The UTF-8 encodings of the code points for which \<^verbatim>\<open>unicode.IsSpace\<close> holds: tab, line
  feed, vertical tab, form feed, carriage return, space, U+0085, U+00A0, U+1680,
  U+2000 to U+200A, U+2028, U+2029, U+202F, U+205F and U+3000.
\<close>

definition spaceRunes :: "string list" where
  "spaceRunes =
     [[CHR 0x09], [CHR 0x0A], [CHR 0x0B], [CHR 0x0C], [CHR 0x0D], [CHR 0x20],
      [CHR 0xC2, CHR 0x85], [CHR 0xC2, CHR 0xA0],
      [CHR 0xE1, CHR 0x9A, CHR 0x80],
      [CHR 0xE2, CHR 0x80, CHR 0x80], [CHR 0xE2, CHR 0x80, CHR 0x81],
      [CHR 0xE2, CHR 0x80, CHR 0x82], [CHR 0xE2, CHR 0x80, CHR 0x83],
      [CHR 0xE2, CHR 0x80, CHR 0x84], [CHR 0xE2, CHR 0x80, CHR 0x85],
      [CHR 0xE2, CHR 0x80, CHR 0x86], [CHR 0xE2, CHR 0x80, CHR 0x87],
      [CHR 0xE2, CHR 0x80, CHR 0x88], [CHR 0xE2, CHR 0x80, CHR 0x89],
      [CHR 0xE2, CHR 0x80, CHR 0x8A],
      [CHR 0xE2, CHR 0x80, CHR 0xA8], [CHR 0xE2, CHR 0x80, CHR 0xA9],
      [CHR 0xE2, CHR 0x80, CHR 0xAF], [CHR 0xE2, CHR 0x81, CHR 0x9F],
      [CHR 0xE3, CHR 0x80, CHR 0x80]]"

text \<open>Removing, from the left, every leading occurrence of one of the sequences \<open>rs\<close>.\<close>

function TrimLeftRunes :: "string list \<Rightarrow> string \<Rightarrow> string" where
  "TrimLeftRunes rs s =
     (case find (\<lambda>r. r \<noteq> [] \<and> prefix r s) rs of
        None \<Rightarrow> s
      | Some r \<Rightarrow> TrimLeftRunes rs (drop (length r) s))"
  by pat_completeness auto
termination
proof (relation "measure (\<lambda>(rs, s). length s)")
  show "wf (measure (\<lambda>(rs, s). length s))" by simp
next
  fix rs :: "string list" and s r :: string
  assume "find (\<lambda>r. r \<noteq> [] \<and> prefix r s) rs = Some r"
  then have "r \<noteq> []" and "prefix r s"
    by (auto simp: find_Some_iff)
  then have "s \<noteq> []" by auto
  with \<open>r \<noteq> []\<close> show "((rs, drop (length r) s), (rs, s)) \<in> measure (\<lambda>(rs, s). length s)"
    by simp
qed

declare TrimLeftRunes.simps [simp del]

text \<open>
  \<^verbatim>\<open>strings.TrimSpace\<close>: leading and trailing white space removed, where white space is
  what \<^verbatim>\<open>unicode.IsSpace\<close> accepts, decoded as UTF-8 (a byte sequence that is not the
  encoding of such a code point stops the trimming).
\<close>

definition TrimSpace :: "string \<Rightarrow> string" where
  "TrimSpace s = rev (TrimLeftRunes (map rev spaceRunes) (rev (TrimLeftRunes spaceRunes s)))"

text \<open>
  \<^verbatim>\<open>strings.ToLower\<close> on the ASCII letters. Go also maps the letters beyond ASCII, and
  the only two of them with an ASCII lower case are U+0130 (to \<open>i\<close>) and U+212A (to
  \<open>k\<close>), so the comparisons of \<^verbatim>\<open>askForConfirmation\<close> with \<open>y\<close>, \<open>yes\<close>, \<open>n\<close>, \<open>no\<close>
  and the empty string have the same outcome.
\<close>

definition toLowerByte :: "char \<Rightarrow> char" where
  "toLowerByte c =
     (let n = (of_char c :: nat) in if 65 \<le> n \<and> n \<le> 90 then char_of (n + 32) else c)"

definition ToLower :: "string \<Rightarrow> string" where
  "ToLower s = map toLowerByte s"

text \<open>\<^verbatim>\<open>strings.Contains(s, substr)\<close>.\<close>

fun Contains :: "string \<Rightarrow> string \<Rightarrow> bool" where
  "Contains [] substr = (substr = [])"
| "Contains (c # cs) substr = (prefix substr (c # cs) \<or> Contains cs substr)"

text \<open>
  \<^verbatim>\<open>filepath.Clean\<close> on a host whose only separator is the slash and whose paths have no
  volume name (darwin, linux and the other Unix systems). The path is cut at its
  slashes (\<^verbatim>\<open>strings.Split\<close>); empty elements and \<open>.\<close> are dropped; \<open>..\<close> removes the
  element before it, is dropped at the root, and is kept at the front of a path that is
  not rooted; what is left is put together again, and the empty result is \<open>.\<close>.
\<close>

fun splitSep :: "string \<Rightarrow> string list" where
  "splitSep [] = [[]]"
| "splitSep (c # cs) =
     (if c = CHR ''/'' then [] # splitSep cs
      else (case splitSep cs of
              [] \<Rightarrow> [[c]]
            | e # es \<Rightarrow> (c # e) # es))"

fun joinSep :: "string list \<Rightarrow> string" where
  "joinSep [] = []"
| "joinSep [e] = e"
| "joinSep (e # e' # es) = e @ ''/'' @ joinSep (e' # es)"

definition cleanElem :: "bool \<Rightarrow> string list \<Rightarrow> string \<Rightarrow> string list" where
  "cleanElem rooted out e =
     (if e = [] \<or> e = ''.'' then out
      else if e = ''..'' then
        (if out \<noteq> [] \<and> last out \<noteq> ''..'' then butlast out
         else if rooted then out
         else out @ [''..''])
      else out @ [e])"

definition isRooted :: "string \<Rightarrow> bool" where
  "isRooted path = (case path of [] \<Rightarrow> False | c # _ \<Rightarrow> c = CHR ''/'')"

definition cleanOut :: "string \<Rightarrow> string list" where
  "cleanOut path = foldl (cleanElem (isRooted path)) [] (splitSep path)"

definition Clean :: "string \<Rightarrow> string" where
  "Clean path =
     (if path = [] then ''.''
      else if isRooted path then ''/'' @ joinSep (cleanOut path)
      else if cleanOut path = [] then ''.''
      else joinSep (cleanOut path))"

text \<open>
  \<^verbatim>\<open>filepath.Join(dir, name)\<close>. On a Unix host: the elements from the first non-empty
  one on, joined with a slash and cleaned; the empty string when both are empty.

  On windows the library also knows the backslash and volume names (drive letters, UNC
  hosts and shares, device prefixes), and what it does with them has changed between Go
  releases. There the model takes the result from the host: for a file name of one plain
  element, which is all this program joins to a directory, the result is that name after
  a directory part that depends on \<open>dir\<close> alone (\<open>winJoinDir\<close>); for any other second
  argument it is \<open>winJoin\<close>.
\<close>

definition plainName :: "string \<Rightarrow> bool" where
  "plainName name =
     (name \<noteq> [] \<and> name \<noteq> ''.'' \<and> name \<noteq> ''..'' \<and>
      list_all (\<lambda>c. c \<noteq> CHR ''/'' \<and> c \<noteq> CHR 0x5C \<and> c \<noteq> CHR '':'' \<and> c \<noteq> CHR ''?'') name)"

definition Join :: "world \<Rightarrow> string \<Rightarrow> string \<Rightarrow> string" where
  "Join w dir name =
     (if GOOS w = ''windows'' then
        (if plainName name then winJoinDir w dir @ name else winJoin w dir name)
      else if dir \<noteq> [] then Clean (dir @ ''/'' @ name)
      else if name \<noteq> [] then Clean name
      else [])"

text \<open>
  The part of \<open>Join w dir name\<close> that stands before a plain \<open>name\<close>: on a Unix host
  the cleaned \<open>dir\<close> with the slash that follows it, if any.
\<close>

definition JoinDir :: "world \<Rightarrow> string \<Rightarrow> string" where
  "JoinDir w dir =
     (if GOOS w = ''windows'' then winJoinDir w dir
      else if dir = [] then []
      else (if isRooted dir then ''/'' else []) @
           (if cleanOut dir = [] then [] else joinSep (cleanOut dir) @ ''/''))"

text \<open>
  A write of \<open>data\<close> to the file at \<open>path\<close>: the bytes that reach the file, and the error.
\<close>

definition Write :: "world \<Rightarrow> string \<Rightarrow> string \<Rightarrow> string \<times> error option" where
  "Write w path data =
     (case writeErr w path of
        None \<Rightarrow> (data, None)
      | Some (n, e) \<Rightarrow> if n < length data then (take n data, Some e) else (data, None))"

text \<open>
  \<^verbatim>\<open>os.Rename(oldpath, newpath)\<close>: fails when there is no file at \<open>oldpath\<close> or when the
  host refuses; otherwise the file is at \<open>newpath\<close> only, replacing what was there.
\<close>

definition Rename :: "world \<Rightarrow> string \<Rightarrow> string \<Rightarrow> state \<Rightarrow> error option \<times> state" where
  "Rename w oldpath newpath s =
     (case files s oldpath of
        None \<Rightarrow> (Some (LibError (''rename '' @ oldpath @ '' '' @ newpath @
                                   '': no such file or directory'')), s)
      | Some content \<Rightarrow>
          (case renameErr w oldpath newpath of
             Some e \<Rightarrow> (Some e, s)
           | None \<Rightarrow> (None, s\<lparr>files := ((files s)(oldpath := None))(newpath \<mapsto> content)\<rparr>)))"

section \<open>Release Locator: \<^verbatim>\<open>getLatestRelease\<close> (lines 29-46)\<close>

definition releasesURL :: string where
  "releasesURL = ''https://api.github.com/repos/kleeedolinux/SolVM/releases''"

definition getLatestRelease :: "world \<Rightarrow> state \<Rightarrow> (error + Release) \<times> state" where
  "getLatestRelease w s =
     (let s = emit (HttpGet releasesURL) s in
      case httpGet w releasesURL of
        Inl err \<Rightarrow> (Inl err, s)
      | Inr resp \<Rightarrow>
          (case decodeReleases w resp of
             Inl err \<Rightarrow> (Inl err, s)
           | Inr releases \<Rightarrow>
               if length releases = 0 then (Inl NoReleasesFound, s)
               else (Inr (releases ! 0), s)))"

section \<open>Asset Matcher: \<^verbatim>\<open>getSystemAsset\<close> (lines 48-83)\<close>

text \<open>
  The local variable \<^verbatim>\<open>assetName\<close> (lines 71-74):
  \<^verbatim>\<open>fmt.Sprintf("solvm-%s-%s", osName, arch)\<close>, then \<^verbatim>\<open>".exe"\<close> appended on windows.
\<close>

definition assetName :: "string \<Rightarrow> string \<Rightarrow> string" where
  "assetName osName arch =
     (let n = ''solvm-'' @ osName @ ''-'' @ arch
      in if osName = ''windows'' then n @ ''.exe'' else n)"

text \<open>The loop of lines 76-80: the first asset whose name equals \<open>n\<close>, if any.\<close>

fun rangeAssets :: "Asset list \<Rightarrow> string \<Rightarrow> Asset option" where
  "rangeAssets [] n = None"
| "rangeAssets (asset # rest) n =
     (if Name asset = n then Some asset else rangeAssets rest n)"

definition getSystemAsset :: "world \<Rightarrow> Release \<Rightarrow> error + Asset" where
  "getSystemAsset w release =
     (if GOOS w = ''windows'' \<or> GOOS w = ''darwin'' \<or> GOOS w = ''linux'' then
        let osName = GOOS w in
        if GOARCH w = ''amd64'' \<or> GOARCH w = ''arm64'' then
          let arch = GOARCH w in
          case rangeAssets (Assets release) (assetName osName arch) of
            Some asset \<Rightarrow> Inr asset
          | None \<Rightarrow> Inl (NoMatchingAsset osName arch)
        else Inl (UnsupportedArch (GOARCH w))
      else Inl (UnsupportedOS (GOOS w)))"

definition supportedOS :: "string set" where
  "supportedOS = {''windows'', ''darwin'', ''linux''}"

definition supportedArch :: "string set" where
  "supportedArch = {''amd64'', ''arm64''}"

section \<open>Downloader: \<^verbatim>\<open>downloadFile\<close> (lines 85-109)\<close>

text \<open>
  \<^verbatim>\<open>io.Copy\<close> into the created file: the bytes that reach the file and the error of the
  copy, which is the error of the failed write, or else the one that ends the body.
  The progress bar, the second writer of the \<^verbatim>\<open>io.MultiWriter\<close>, draws on standard
  error and is left out.
\<close>

definition ioCopy :: "world \<Rightarrow> string \<Rightarrow> response \<Rightarrow> string \<times> error option" where
  "ioCopy w dest resp =
     (case Write w dest (Body resp) of
        (written, Some e) \<Rightarrow> (written, Some e)
      | (written, None) \<Rightarrow> (written, BodyErr resp))"

definition downloadFile :: "world \<Rightarrow> string \<Rightarrow> string \<Rightarrow> state \<Rightarrow> error option \<times> state" where
  "downloadFile w url dest s =
     (let s = emit (HttpGet url) s in
      case httpGet w url of
        Inl err \<Rightarrow> (Some err, s)
      | Inr resp \<Rightarrow>
          if StatusCode resp \<noteq> 200 then (Some (BadStatus (Status resp)), s)
          else
            (case createErr w dest of
               Some err \<Rightarrow> (Some err, s)
             | None \<Rightarrow>
                 let (written, err) = ioCopy w dest resp
                 in (err, s\<lparr>files := (files s)(dest \<mapsto> written)\<rparr>)))"

section \<open>Path Registrar: \<^verbatim>\<open>addToPath\<close> (lines 111-146)\<close>

definition powershellCommand :: "string \<Rightarrow> string" where
  "powershellCommand installDir =
     ''$path = [Environment]::GetEnvironmentVariable('' @ [squote] @ ''Path'' @ [squote] @
     '', '' @ [squote] @ ''User'' @ [squote] @ ''); if (-not $path.Contains('' @ [squote] @
     installDir @ [squote] @ '')) { [Environment]::SetEnvironmentVariable('' @ [squote] @
     ''Path'' @ [squote] @ '', $path + '' @ [squote] @ '';'' @ installDir @ [squote] @
     '', '' @ [squote] @ ''User'' @ [squote] @ '') }''"

text \<open>The local variables \<^verbatim>\<open>rcFile\<close> (lines 122-128) and \<^verbatim>\<open>pathLine\<close> (line 130).\<close>

definition rcFile :: "world \<Rightarrow> string" where
  "rcFile w =
     (let shell = Getenv w ''SHELL'' in
      if Contains shell ''zsh'' then Join w (Getenv w ''HOME'') ''.zshrc''
      else Join w (Getenv w ''HOME'') ''.bashrc'')"

definition pathLine :: "string \<Rightarrow> string" where
  "pathLine installDir =
     [newline] @ ''export PATH='' @ [dquote] @ installDir @ '':$PATH'' @ [dquote] @ [newline]"

text \<open>
  \<^verbatim>\<open>os.OpenFile(rcFile, os.O_APPEND|os.O_WRONLY, 0644)\<close> has no \<^verbatim>\<open>O_CREATE\<close>: it fails
  when the file does not exist, or when the host refuses. Each write to the opened file
  goes to its end.
\<close>

definition addToPath :: "world \<Rightarrow> string \<Rightarrow> state \<Rightarrow> error option \<times> state" where
  "addToPath w installDir s =
     (if GOOS w = ''windows'' then
        let args = [''-Command'', powershellCommand installDir]
        in (cmdRun w ''powershell'' args, emit (Exec ''powershell'' args) s)
      else if GOOS w = ''darwin'' \<or> GOOS w = ''linux'' then
        (case files s (rcFile w) of
           None \<Rightarrow> (Some (LibError (''open '' @ rcFile w @ '': no such file or directory'')), s)
         | Some content \<Rightarrow>
             (case openFileErr w (rcFile w) of
                Some err \<Rightarrow> (Some err, s)
              | None \<Rightarrow>
                  (case Write w (rcFile w) (pathLine installDir) of
                     (written, Some err) \<Rightarrow>
                       (Some err, s\<lparr>files := (files s)(rcFile w \<mapsto> content @ written)\<rparr>)
                   | (written, None) \<Rightarrow>
                       (cmdRun w ''source'' [rcFile w],
                        emit (Exec ''source'' [rcFile w])
                          (s\<lparr>files := (files s)(rcFile w \<mapsto> content @ written)\<rparr>)))))
      else (None, s))"

section \<open>Confirmation prompt: \<^verbatim>\<open>askForConfirmation\<close> (lines 148-164)\<close>

text \<open>
  The loop of lines 150-163 on a reader that obtains \<open>input\<close>: the prompts printed and
  the answer returned.
\<close>

function askForConfirmation_loop :: "string \<Rightarrow> string \<Rightarrow> event list \<times> bool" where
  "askForConfirmation_loop message input =
     (case ReadString input of
        (response, Some err, rest) \<Rightarrow> ([Printf (message @ '' [y/N]: '')], False)
      | (response, None, rest) \<Rightarrow>
          let response = ToLower (TrimSpace response) in
          if response = ''y'' \<or> response = ''yes'' then
            ([Printf (message @ '' [y/N]: '')], True)
          else if response = ''n'' \<or> response = ''no'' \<or> response = [] then
            ([Printf (message @ '' [y/N]: '')], False)
          else
            (case askForConfirmation_loop message rest of
               (prompts, answer) \<Rightarrow> (Printf (message @ '' [y/N]: '') # prompts, answer)))"
  by pat_completeness auto
termination
proof (relation "measure (\<lambda>(message, input). length input)", goal_cases)
  case 1
  show ?case by simp
next
  case (2 message input response y e rest)
  then have rs: "ReadString input = (response, None, rest)" by simp
  then have nl: "newline \<in> set input"
    by (auto simp: ReadString_def split: if_splits)
  then have "dropWhile (\<lambda>c. c \<noteq> newline) input \<noteq> []" by simp
  then have "length (tl (dropWhile (\<lambda>c. c \<noteq> newline) input))
               < length (dropWhile (\<lambda>c. c \<noteq> newline) input)"
    by (cases "dropWhile (\<lambda>c. c \<noteq> newline) input") auto
  also have "\<dots> \<le> length input" by (rule length_dropWhile_le)
  finally have "length (tl (dropWhile (\<lambda>c. c \<noteq> newline) input)) < length input" .
  moreover have "rest = tl (dropWhile (\<lambda>c. c \<noteq> newline) input)"
    using rs nl by (simp add: ReadString_def)
  ultimately have "length rest < length input" by simp
  then show ?case by simp
qed

declare askForConfirmation_loop.simps [simp del]

text \<open>
  The function itself: a new reader (line 149), which obtains the next element of
  \<open>stdin\<close> (nothing but end of file when there is none), then the loop.
\<close>

definition askForConfirmation :: "string \<Rightarrow> state \<Rightarrow> bool \<times> state" where
  "askForConfirmation message s =
     (let (input, later) = (case stdin s of [] \<Rightarrow> ([], []) | i # is \<Rightarrow> (i, is));
          (prompts, answer) = askForConfirmation_loop message input
      in (answer, s\<lparr>trace := trace s @ prompts, stdin := later\<rparr>))"

section \<open>\<^verbatim>\<open>checkExistingInstallation\<close> (lines 166-173)\<close>

text \<open>\<^verbatim>\<open>os.Stat\<close> returns no error exactly when there is a file at the path.\<close>

definition checkExistingInstallation :: "world \<Rightarrow> string \<Rightarrow> state \<Rightarrow> bool" where
  "checkExistingInstallation w installDir s =
     (if GOOS w = ''windows'' then files s (Join w installDir ''solvm.exe'') \<noteq> None
      else files s (Join w installDir ''solvm'') \<noteq> None)"

section \<open>Interactive Orchestrator: \<^verbatim>\<open>main\<close> (lines 175-259)\<close>

text \<open>
  A run returns the exit code of the process and the final state. \<^verbatim>\<open>main\<close> is a
  straight line with exits; it is cut into four blocks, each of which ends by exiting or
  by entering the next one.

  Lines 245-258: PATH registration and the completion messages.
\<close>

definition main_path :: "world \<Rightarrow> string \<Rightarrow> state \<Rightarrow> nat \<times> state" where
  "main_path w installDir s =
     (let (answer, s) = askForConfirmation ''Do you want to add SolVM to your PATH?'' s;
          s = (if \<not> answer then emit (Print Yellow ''Skipping PATH configuration'') s
               else
                 let s = emit (Print Yellow ''Adding to PATH...'') s;
                     (err, s) = addToPath w installDir s
                 in case err of
                      Some e \<Rightarrow>
                        emit (Print Yellow (''Please manually add to PATH: '' @ installDir))
                          (emit (Print Red (''Error adding to PATH: '' @ Error e)) s)
                    | None \<Rightarrow> emit (Print Green ''Successfully added to PATH'') s);
          s = emit (Print Green ''Installation complete!'') s;
          s = emit (Print Green ''Please restart your terminal to use SolVM'') s
      in (0, s))"

text \<open>The local variables \<^verbatim>\<open>tempPath\<close> (line 219) and \<^verbatim>\<open>finalPath\<close> (lines 227-231).\<close>

definition tempPath :: "world \<Rightarrow> string \<Rightarrow> Asset \<Rightarrow> string" where
  "tempPath w installDir asset = Join w installDir (Name asset)"

definition finalPath :: "world \<Rightarrow> string \<Rightarrow> string" where
  "finalPath w installDir =
     (let finalName = (if GOOS w = ''windows'' then ''solvm'' @ ''.exe'' else ''solvm'')
      in Join w installDir finalName)"

text \<open>Lines 214-243: directory, download, rename, permissions.\<close>

definition main_install :: "world \<Rightarrow> string \<Rightarrow> Asset \<Rightarrow> state \<Rightarrow> nat \<times> state" where
  "main_install w installDir asset s =
     (case mkdirAllErr w installDir of
        Some e \<Rightarrow> (1, emit (Print Red (''Error creating install directory: '' @ Error e)) s)
      | None \<Rightarrow>
          let s = emit (Print Yellow (''Downloading to: '' @ tempPath w installDir asset)) s;
              (err, s) = downloadFile w (BrowserDownloadURL asset) (tempPath w installDir asset) s
          in case err of
               Some e \<Rightarrow> (1, emit (Print Red (''Error downloading file: '' @ Error e)) s)
             | None \<Rightarrow>
                 let (err, s) = Rename w (tempPath w installDir asset) (finalPath w installDir) s
                 in case err of
                      Some e \<Rightarrow> (1, emit (Print Red (''Error renaming file: '' @ Error e)) s)
                    | None \<Rightarrow>
                        (case (if GOOS w \<noteq> ''windows''
                               then chmodErr w (finalPath w installDir) else None) of
                           Some e \<Rightarrow>
                             (1, emit (Print Red (''Error setting executable permissions: ''
                                                   @ Error e)) s)
                         | None \<Rightarrow> main_path w installDir s))"

text \<open>Lines 193-212: release lookup, asset matching, second confirmation.\<close>

definition main_select :: "world \<Rightarrow> string \<Rightarrow> state \<Rightarrow> nat \<times> state" where
  "main_select w installDir s =
     (let (r, s) = getLatestRelease w s in
      case r of
        Inl e \<Rightarrow> (1, emit (Print Red (''Error getting latest release: '' @ Error e)) s)
      | Inr release \<Rightarrow>
          let s = emit (Print Green (''Latest version: '' @ TagName release)) s in
          case getSystemAsset w release of
            Inl e \<Rightarrow> (1, emit (Print Red (''Error finding system asset: '' @ Error e)) s)
          | Inr asset \<Rightarrow>
              let s = emit (Print Yellow (''Found matching asset: '' @ Name asset)) s;
                  (answer, s) = askForConfirmation ''Do you want to install SolVM?'' s
              in if \<not> answer then (0, emit (Print Yellow ''Installation cancelled'') s)
                 else main_install w installDir asset s)"

text \<open>Lines 175-191, then the rest.\<close>

definition main :: "world \<Rightarrow> state \<Rightarrow> nat \<times> state" where
  "main w s =
     (let s = emit (Print Cyan ''SolVM Installer'') s;
          s = emit (Print Cyan ''==============='') s
      in case UserHomeDir w of
           Inl e \<Rightarrow> (1, emit (Print Red (''Error getting home directory: '' @ Error e)) s)
         | Inr homeDir \<Rightarrow>
             let installDir = Join w homeDir ''.solvm'' in
             if checkExistingInstallation w installDir s then
               let (answer, s) =
                     askForConfirmation ''SolVM is already installed. Do you want to replace it?'' s
               in if \<not> answer then (0, emit (Print Yellow ''Installation cancelled'') s)
                  else main_select w installDir s
             else main_select w installDir s)"

section \<open>A concrete host\<close>

text \<open>
  A linux/amd64 host on which every call succeeds, except that \<^verbatim>\<open>source\<close>, a shell
  builtin, is not an executable file: \<^verbatim>\<open>exec.Command("source", rcFile).Run()\<close> fails.
  The release list it is served has two releases. Runs on variants of this host
  instantiate the theorems below.
\<close>

definition release1 :: Release where
  "release1 =
     \<lparr>TagName = ''v1.2.0'',
      Assets = [\<lparr>Name = ''SOLVM-LINUX-AMD64'', BrowserDownloadURL = ''U0''\<rparr>,
                \<lparr>Name = ''solvm-linux-amd64.tar.gz'', BrowserDownloadURL = ''U1''\<rparr>,
                \<lparr>Name = ''solvm-linux-amd64'', BrowserDownloadURL = ''U2''\<rparr>,
                \<lparr>Name = ''solvm-linux-amd64'', BrowserDownloadURL = ''U3''\<rparr>,
                \<lparr>Name = ''solvm-windows-arm64.exe'', BrowserDownloadURL = ''U4''\<rparr>]\<rparr>"

definition release2 :: Release where
  "release2 =
     \<lparr>TagName = ''v1.10.0'',
      Assets = [\<lparr>Name = ''solvm-linux-amd64.tar.gz'', BrowserDownloadURL = ''U5''\<rparr>]\<rparr>"

definition host :: world where
  "host =
     \<lparr>GOOS = ''linux'', GOARCH = ''amd64'',
      UserHomeDir = Inr ''/home/u'',
      Getenv = (\<lambda>k. if k = ''HOME'' then ''/home/u''
                    else if k = ''SHELL'' then ''/bin/bash'' else []),
      httpGet = (\<lambda>url.
         if url = releasesURL then
           Inr \<lparr>StatusCode = 200, Status = ''200 OK'', ContentLength = - 1,
                Body = ''[...]'', BodyErr = None\<rparr>
         else if url = ''U2'' then
           Inr \<lparr>StatusCode = 200, Status = ''200 OK'', ContentLength = 7,
                Body = ''ELF....'', BodyErr = None\<rparr>
         else Inl (LibError ''no such host'')),
      decodeReleases = (\<lambda>resp. Inr [release1, release2]),
      mkdirAllErr = (\<lambda>path. None),
      createErr = (\<lambda>path. None),
      openFileErr = (\<lambda>path. None),
      writeErr = (\<lambda>path. None),
      renameErr = (\<lambda>oldpath newpath. None),
      chmodErr = (\<lambda>path. None),
      cmdRun = (\<lambda>name args.
         if name = ''source'' then Some (LibError ''exec: source: executable file not found'')
         else None),
      winJoinDir = (\<lambda>dir. dir @ [CHR 0x5C]),
      winJoin = (\<lambda>dir name. dir @ [CHR 0x5C] @ name)\<rparr>"

text \<open>The same host when the connection breaks after three bytes of the download.\<close>

definition host_broken_download :: world where
  "host_broken_download =
     host\<lparr>httpGet := (\<lambda>url.
        if url = ''U2'' then
          Inr \<lparr>StatusCode = 200, Status = ''200 OK'', ContentLength = 7,
               Body = ''ELF'', BodyErr = Some (LibError ''unexpected EOF'')\<rparr>
        else httpGet host url)\<rparr>"

text \<open>
  A file system with a \<^verbatim>\<open>.bashrc\<close> and an earlier installation, and the answers typed
  at the prompts.
\<close>

definition disk :: "string \<rightharpoonup> string" where
  "disk = [''/home/u/.bashrc'' \<mapsto> ''# rc'', ''/home/u/.solvm/solvm'' \<mapsto> ''OLD'']"

definition start :: "string list \<Rightarrow> state" where
  "start answers = \<lparr>trace = [], files = disk, stdin = answers\<rparr>"

section \<open>Properties of \<^verbatim>\<open>filepath.Join\<close>\<close>

lemma splitSep_not_Nil: "splitSep path \<noteq> []"
  by (induction path) (auto split: list.splits)

lemma splitSep_append: "splitSep (a @ CHR ''/'' # b) = splitSep a @ splitSep b"
proof (induction a)
  case Nil
  show ?case by simp
next
  case (Cons c a)
  obtain e es where "splitSep a = e # es"
    using splitSep_not_Nil [of a] by (cases "splitSep a") auto
  with Cons show ?case by simp
qed

lemma splitSep_no_slash: "CHR ''/'' \<notin> set name \<Longrightarrow> splitSep name = [name]"
  by (induction name) auto

lemma joinSep_snoc:
  "joinSep (out @ [e]) = (if out = [] then e else joinSep out @ ''/'' @ e)"
  by (induction out rule: joinSep.induct) auto

lemma plainName_no_slash: "plainName name \<Longrightarrow> CHR ''/'' \<notin> set name"
  by (auto simp: plainName_def list_all_iff)

lemma cleanElem_plainName: "plainName name \<Longrightarrow> cleanElem rooted out name = out @ [name]"
  by (simp add: cleanElem_def plainName_def)

lemma cleanOut_plainName:
  assumes "plainName name" and "dir \<noteq> []"
  shows "cleanOut (dir @ ''/'' @ name) = cleanOut dir @ [name]"
proof -
  have "isRooted (dir @ ''/'' @ name) = isRooted dir"
    using assms(2) by (cases dir) (simp_all add: isRooted_def)
  moreover have "splitSep (dir @ ''/'' @ name) = splitSep dir @ [name]"
    using splitSep_append [of dir name] splitSep_no_slash [OF plainName_no_slash [OF assms(1)]]
    by simp
  ultimately show ?thesis
    by (simp add: cleanOut_def cleanElem_plainName [OF assms(1)])
qed

lemma Clean_plainName:
  assumes "plainName name"
  shows "Clean name = name"
proof -
  have ne: "name \<noteq> []" and ns: "CHR ''/'' \<notin> set name"
    using assms plainName_no_slash by (auto simp: plainName_def)
  then have "\<not> isRooted name" by (cases name) (auto simp: isRooted_def)
  moreover have "cleanOut name = [name]"
    by (simp add: cleanOut_def splitSep_no_slash [OF ns] cleanElem_plainName [OF assms])
  ultimately show ?thesis using ne by (simp add: Clean_def)
qed

text \<open>A plain file name joined to a directory stands at the end of the result.\<close>

lemma Join_plainName:
  assumes "plainName name"
  shows "Join w dir name = JoinDir w dir @ name"
proof (cases "GOOS w = ''windows''")
  case True
  with assms show ?thesis by (simp add: Join_def JoinDir_def)
next
  case unix: False
  have ne: "name \<noteq> []" using assms by (simp add: plainName_def)
  show ?thesis
  proof (cases "dir = []")
    case True
    with unix ne show ?thesis
      by (simp add: Join_def JoinDir_def Clean_plainName [OF assms])
  next
    case False
    have out: "cleanOut (dir @ ''/'' @ name) = cleanOut dir @ [name]"
      by (rule cleanOut_plainName [OF assms False])
    have hd: "isRooted (dir @ ''/'' @ name) = isRooted dir"
      using False by (cases dir) (simp_all add: isRooted_def)
    have "Clean (dir @ ''/'' @ name) =
            (if isRooted dir then ''/'' else []) @
            (if cleanOut dir = [] then [] else joinSep (cleanOut dir) @ ''/'') @ name"
      using False unfolding Clean_def out hd joinSep_snoc by simp
    with unix False show ?thesis
      by (simp add: Join_def JoinDir_def)
  qed
qed

lemma Join_plainName_inject:
  assumes "plainName name" and "plainName name'"
  shows "Join w dir name = Join w dir name' \<longleftrightarrow> name = name'"
  by (simp add: Join_plainName [OF assms(1)] Join_plainName [OF assms(2)])

text \<open>
  On a Unix host, a directory that is already clean and is neither the root nor \<open>.\<close>
  is followed by a slash and the name.
\<close>

lemma Join_clean_dir:
  assumes "GOOS w \<noteq> ''windows''" and "plainName name"
    and "Clean dir = dir" and "dir \<noteq> ''/''" and "dir \<noteq> ''.''"
  shows "Join w dir name = dir @ ''/'' @ name"
proof -
  have ne: "dir \<noteq> []"
  proof
    assume "dir = []"
    with assms(3) show False by (simp add: Clean_def)
  qed
  have out: "cleanOut dir \<noteq> []"
  proof
    assume "cleanOut dir = []"
    with ne have "Clean dir = ''/'' \<or> Clean dir = ''.''" by (simp add: Clean_def)
    with assms(3,4,5) show False by simp
  qed
  have "dir = (if isRooted dir then ''/'' else []) @ joinSep (cleanOut dir)"
    using assms(3) ne out by (simp add: Clean_def split: if_splits)
  then have "JoinDir w dir = dir @ ''/''"
    using assms(1) ne out by (simp add: JoinDir_def)
  then show ?thesis
    by (simp add: Join_plainName [OF assms(2)])
qed

section \<open>Properties of the Asset Matcher\<close>

lemma rangeAssets_None: "rangeAssets as n = None \<longleftrightarrow> (\<forall>a \<in> set as. Name a \<noteq> n)"
  by (induction as) auto

lemma rangeAssets_Some:
  "rangeAssets as n = Some a \<longleftrightarrow>
     (\<exists>i < length as. as ! i = a \<and> Name a = n \<and> (\<forall>j < i. Name (as ! j) \<noteq> n))"
proof (induction as)
  case Nil
  show ?case by simp
next
  case (Cons x xs)
  show ?case
  proof (cases "Name x = n")
    case True
    have "(\<exists>i < length (x # xs). (x # xs) ! i = a \<and> Name a = n \<and>
             (\<forall>j < i. Name ((x # xs) ! j) \<noteq> n)) \<longleftrightarrow> x = a"
    proof
      assume "\<exists>i < length (x # xs). (x # xs) ! i = a \<and> Name a = n \<and>
                (\<forall>j < i. Name ((x # xs) ! j) \<noteq> n)"
      then obtain i where i: "(x # xs) ! i = a" "\<forall>j < i. Name ((x # xs) ! j) \<noteq> n"
        by blast
      have "i = 0"
      proof (rule ccontr)
        assume "i \<noteq> 0"
        then have "0 < i" by simp
        with i(2) have "Name ((x # xs) ! 0) \<noteq> n" by blast
        with True show False by simp
      qed
      with i(1) show "x = a" by simp
    next
      assume "x = a"
      with True have "(x # xs) ! 0 = a \<and> Name a = n \<and> (\<forall>j < 0. Name ((x # xs) ! j) \<noteq> n)"
        by simp
      then show "\<exists>i < length (x # xs). (x # xs) ! i = a \<and> Name a = n \<and>
                   (\<forall>j < i. Name ((x # xs) ! j) \<noteq> n)"
        by (intro exI [of _ 0]) simp
    qed
    with True show ?thesis by simp
  next
    case False
    have "(\<exists>i < length (x # xs). (x # xs) ! i = a \<and> Name a = n \<and>
             (\<forall>j < i. Name ((x # xs) ! j) \<noteq> n)) \<longleftrightarrow>
          (\<exists>i < length xs. xs ! i = a \<and> Name a = n \<and> (\<forall>j < i. Name (xs ! j) \<noteq> n))"
      (is "?L \<longleftrightarrow> ?R")
    proof
      assume ?L
      then obtain i where i: "i < length (x # xs)" "(x # xs) ! i = a" "Name a = n"
        "\<forall>j < i. Name ((x # xs) ! j) \<noteq> n"
        by blast
      from i(2,3) False have "i \<noteq> 0" by (cases i) auto
      then obtain k where k: "i = Suc k" by (cases i) auto
      have "\<forall>j < k. Name (xs ! j) \<noteq> n"
      proof (intro allI impI)
        fix j assume "j < k"
        then have "Suc j < i" using k by simp
        with i(4) have "Name ((x # xs) ! Suc j) \<noteq> n" by blast
        then show "Name (xs ! j) \<noteq> n" by simp
      qed
      with i k show ?R by (intro exI [of _ k]) simp
    next
      assume ?R
      then obtain k where k: "k < length xs" "xs ! k = a" "Name a = n"
        "\<forall>j < k. Name (xs ! j) \<noteq> n"
        by blast
      have "\<forall>j < Suc k. Name ((x # xs) ! j) \<noteq> n"
      proof (intro allI impI)
        fix j assume "j < Suc k"
        then show "Name ((x # xs) ! j) \<noteq> n"
          using False k(4) by (cases j) auto
      qed
      with k show ?L by (intro exI [of _ "Suc k"]) simp
    qed
    with False Cons.IH show ?thesis by simp
  qed
qed



text \<open>
  C1. For every supported pair of operating system and architecture the matcher compares
  the asset names with \<open>solvm-<os>-<arch>\<close>, followed by \<open>.exe\<close> exactly when the operating
  system is windows.
\<close>

theorem getSystemAsset_assetName:
  assumes "GOOS w \<in> supportedOS" and "GOARCH w \<in> supportedArch"
  shows "assetName (GOOS w) (GOARCH w) =
           ''solvm-'' @ GOOS w @ ''-'' @ GOARCH w @ (if GOOS w = ''windows'' then ''.exe'' else [])
       \<and> getSystemAsset w release =
           (case rangeAssets (Assets release)
                   (''solvm-'' @ GOOS w @ ''-'' @ GOARCH w @
                      (if GOOS w = ''windows'' then ''.exe'' else [])) of
              Some asset \<Rightarrow> Inr asset
            | None \<Rightarrow> Inl (NoMatchingAsset (GOOS w) (GOARCH w)))"
proof -
  have n: "assetName (GOOS w) (GOARCH w) =
             ''solvm-'' @ GOOS w @ ''-'' @ GOARCH w @ (if GOOS w = ''windows'' then ''.exe'' else [])"
    by (simp add: assetName_def Let_def)
  have os: "GOOS w = ''windows'' \<or> GOOS w = ''darwin'' \<or> GOOS w = ''linux''"
    using assms(1) by (simp add: supportedOS_def)
  have ar: "GOARCH w = ''amd64'' \<or> GOARCH w = ''arm64''"
    using assms(2) by (simp add: supportedArch_def)
  have "getSystemAsset w release =
          (case rangeAssets (Assets release) (assetName (GOOS w) (GOARCH w)) of
             Some asset \<Rightarrow> Inr asset
           | None \<Rightarrow> Inl (NoMatchingAsset (GOOS w) (GOARCH w)))"
    unfolding getSystemAsset_def Let_def using os ar by presburger
  with n show ?thesis by simp
qed

theorem getSystemAsset_assetName_witness:
  "GOOS host \<in> supportedOS \<and> GOARCH host \<in> supportedArch
   \<and> assetName (GOOS host) (GOARCH host) = ''solvm-linux-amd64''
   \<and> getSystemAsset host release1
       = Inr \<lparr>Name = ''solvm-linux-amd64'', BrowserDownloadURL = ''U2''\<rparr>
   \<and> GOOS (host\<lparr>GOOS := ''windows'', GOARCH := ''arm64''\<rparr>) \<in> supportedOS
   \<and> GOARCH (host\<lparr>GOOS := ''windows'', GOARCH := ''arm64''\<rparr>) \<in> supportedArch
   \<and> assetName ''windows'' ''arm64'' = ''solvm-windows-arm64.exe''
   \<and> getSystemAsset (host\<lparr>GOOS := ''windows'', GOARCH := ''arm64''\<rparr>) release1
       = Inr \<lparr>Name = ''solvm-windows-arm64.exe'', BrowserDownloadURL = ''U4''\<rparr>"
proof -
  let ?win = "host\<lparr>GOOS := ''windows'', GOARCH := ''arm64''\<rparr>"
  have l: "GOOS host \<in> supportedOS" and a: "GOARCH host \<in> supportedArch"
    by (simp_all add: host_def supportedOS_def supportedArch_def)
  have v: "GOOS ?win \<in> supportedOS" and b: "GOARCH ?win \<in> supportedArch"
    by (simp_all add: supportedOS_def supportedArch_def)
  have 1: "assetName (GOOS host) (GOARCH host) = ''solvm-linux-amd64''
         \<and> getSystemAsset host release1
             = Inr \<lparr>Name = ''solvm-linux-amd64'', BrowserDownloadURL = ''U2''\<rparr>"
    using getSystemAsset_assetName [OF l a, of release1]
    by (simp add: host_def release1_def)
  have 2: "assetName ''windows'' ''arm64'' = ''solvm-windows-arm64.exe''
         \<and> getSystemAsset ?win release1
             = Inr \<lparr>Name = ''solvm-windows-arm64.exe'', BrowserDownloadURL = ''U4''\<rparr>"
    using getSystemAsset_assetName [OF v b, of release1]
    by (simp add: release1_def)
  show ?thesis using l a v b 1 2 by blast
qed

text \<open>
  C2. On a supported platform the matcher returns an asset exactly when it is the first
  one of the release whose name is equal, byte for byte, to the expected name, and it
  returns the error "no matching asset found" exactly when no asset has that name.
\<close>

theorem getSystemAsset_first_exact_match:
  assumes "GOOS w \<in> supportedOS" and "GOARCH w \<in> supportedArch"
  shows "(getSystemAsset w release = Inr a \<longleftrightarrow>
            (\<exists>i < length (Assets release).
                Assets release ! i = a \<and> Name a = assetName (GOOS w) (GOARCH w) \<and>
                (\<forall>j < i. Name (Assets release ! j) \<noteq> assetName (GOOS w) (GOARCH w))))
       \<and> (getSystemAsset w release = Inl (NoMatchingAsset (GOOS w) (GOARCH w)) \<longleftrightarrow>
            (\<forall>b \<in> set (Assets release). Name b \<noteq> assetName (GOOS w) (GOARCH w)))
       \<and> (\<forall>e. getSystemAsset w release = Inl e \<longrightarrow>
            e = NoMatchingAsset (GOOS w) (GOARCH w))"
proof -
  have os: "GOOS w = ''windows'' \<or> GOOS w = ''darwin'' \<or> GOOS w = ''linux''"
    using assms(1) by (simp add: supportedOS_def)
  have ar: "GOARCH w = ''amd64'' \<or> GOARCH w = ''arm64''"
    using assms(2) by (simp add: supportedArch_def)
  have g: "getSystemAsset w release =
          (case rangeAssets (Assets release) (assetName (GOOS w) (GOARCH w)) of
             Some asset \<Rightarrow> Inr asset
           | None \<Rightarrow> Inl (NoMatchingAsset (GOOS w) (GOARCH w)))"
    unfolding getSystemAsset_def Let_def using os ar by presburger
  have 1: "getSystemAsset w release = Inr a \<longleftrightarrow>
             rangeAssets (Assets release) (assetName (GOOS w) (GOARCH w)) = Some a"
    by (simp add: g split: option.splits)
  have 2: "getSystemAsset w release = Inl (NoMatchingAsset (GOOS w) (GOARCH w)) \<longleftrightarrow>
             rangeAssets (Assets release) (assetName (GOOS w) (GOARCH w)) = None"
    by (simp add: g split: option.splits)
  have 3: "\<forall>e. getSystemAsset w release = Inl e \<longrightarrow>
             e = NoMatchingAsset (GOOS w) (GOARCH w)"
    by (auto simp: g split: option.splits)
  show ?thesis
    unfolding 1 2 rangeAssets_Some rangeAssets_None using 3 by blast
qed

theorem getSystemAsset_first_exact_match_witness:
  "GOOS host \<in> supportedOS \<and> GOARCH host \<in> supportedArch
   \<and> getSystemAsset host release1
       = Inr \<lparr>Name = ''solvm-linux-amd64'', BrowserDownloadURL = ''U2''\<rparr>
   \<and> getSystemAsset host release2 = Inl (NoMatchingAsset ''linux'' ''amd64'')"
proof -
  let ?a = "\<lparr>Name = ''solvm-linux-amd64'', BrowserDownloadURL = ''U2''\<rparr>"
  have l: "GOOS host \<in> supportedOS" and a: "GOARCH host \<in> supportedArch"
    by (simp_all add: host_def supportedOS_def supportedArch_def)
  have n: "assetName (GOOS host) (GOARCH host) = ''solvm-linux-amd64''"
    by (simp add: assetName_def host_def)
  have "\<forall>b \<in> set (Assets release2). Name b \<noteq> assetName (GOOS host) (GOARCH host)"
    by (simp add: n release2_def)
  then have "getSystemAsset host release2
               = Inl (NoMatchingAsset (GOOS host) (GOARCH host))"
    by (rule getSystemAsset_first_exact_match
          [OF l a, THEN conjunct2, THEN conjunct1, THEN iffD2])
  then have 1: "getSystemAsset host release2 = Inl (NoMatchingAsset ''linux'' ''amd64'')"
    by (simp add: host_def)
  have j: "\<forall>j < 2. Name (Assets release1 ! j) \<noteq> assetName (GOOS host) (GOARCH host)"
  proof (intro allI impI)
    fix j :: nat
    assume "j < 2"
    then have "j = 0 \<or> j = 1" by arith
    then show "Name (Assets release1 ! j) \<noteq> assetName (GOOS host) (GOARCH host)"
      by (auto simp: n release1_def)
  qed
  have "2 < length (Assets release1) \<and> Assets release1 ! 2 = ?a \<and>
          Name ?a = assetName (GOOS host) (GOARCH host) \<and>
          (\<forall>j < 2. Name (Assets release1 ! j) \<noteq> assetName (GOOS host) (GOARCH host))"
    using j by (simp add: n release1_def)
  then have "\<exists>i < length (Assets release1). Assets release1 ! i = ?a \<and>
          Name ?a = assetName (GOOS host) (GOARCH host) \<and>
          (\<forall>j < i. Name (Assets release1 ! j) \<noteq> assetName (GOOS host) (GOARCH host))"
    by (rule exI [of _ 2])
  then have 2: "getSystemAsset host release1 = Inr ?a"
    by (rule getSystemAsset_first_exact_match [OF l a, THEN conjunct1, THEN iffD2])
  show ?thesis using l a 1 2 by blast
qed

text \<open>
  C5. When the operating system or the architecture of the host is outside the
  supported sets, the matcher returns the error of the platform switch that rejects
  it. The matcher itself has no effect on the state; in the run, the only network
  request made is the one for the release list, which precedes the matcher, and the
  process exits with code 1.
\<close>

theorem getSystemAsset_unsupported:
  assumes "GOOS w \<notin> supportedOS \<or> GOARCH w \<notin> supportedArch"
  shows "(\<exists>e. getSystemAsset w release = Inl e \<and> UnsupportedPlatform e)
       \<and> (GOOS w \<notin> supportedOS \<longrightarrow>
            getSystemAsset w release = Inl (UnsupportedOS (GOOS w)))
       \<and> (GOOS w \<in> supportedOS \<longrightarrow>
            getSystemAsset w release = Inl (UnsupportedArch (GOARCH w)))
       \<and> (fst (getLatestRelease w s) = Inr release \<longrightarrow>
            fst (main_select w installDir s) = 1 \<and>
            requests (snd (main_select w installDir s)) = requests s @ [HttpGet releasesURL])"
proof -
  have os: "GOOS w \<notin> supportedOS \<Longrightarrow> getSystemAsset w release = Inl (UnsupportedOS (GOOS w))"
    by (simp add: getSystemAsset_def supportedOS_def)
  have ar: "GOOS w \<in> supportedOS \<Longrightarrow>
            getSystemAsset w release = Inl (UnsupportedArch (GOARCH w))"
  proof -
    assume "GOOS w \<in> supportedOS"
    with assms have "GOARCH w \<notin> supportedArch" by blast
    then have "\<not> (GOARCH w = ''amd64'' \<or> GOARCH w = ''arm64'')"
      by (simp add: supportedArch_def)
    moreover have "GOOS w = ''windows'' \<or> GOOS w = ''darwin'' \<or> GOOS w = ''linux''"
      using \<open>GOOS w \<in> supportedOS\<close> by (simp add: supportedOS_def)
    ultimately show ?thesis
      unfolding getSystemAsset_def Let_def by presburger
  qed
  have ex: "\<exists>e. getSystemAsset w release = Inl e \<and> UnsupportedPlatform e"
  proof (cases "GOOS w \<in> supportedOS")
    case True
    from ar [OF True] show ?thesis by simp
  next
    case False
    from os [OF False] show ?thesis by simp
  qed
  have run: "fst (main_select w installDir s) = 1 \<and>
             requests (snd (main_select w installDir s)) = requests s @ [HttpGet releasesURL]"
    if r: "fst (getLatestRelease w s) = Inr release"
  proof -
    from ex obtain e where e: "getSystemAsset w release = Inl e" by blast
    have st: "snd (getLatestRelease w s) = emit (HttpGet releasesURL) s"
      by (simp add: getLatestRelease_def Let_def split: sum.splits)
    have g: "getLatestRelease w s = (Inr release, emit (HttpGet releasesURL) s)"
      using r st by (metis prod.collapse)
    show ?thesis
      by (simp add: main_select_def g e requests_def emit_def)
  qed
  show ?thesis using ex os ar run by blast
qed

theorem getSystemAsset_unsupported_witness:
  "GOOS (host\<lparr>GOOS := ''freebsd''\<rparr>) \<notin> supportedOS
   \<and> getSystemAsset (host\<lparr>GOOS := ''freebsd''\<rparr>) release1 = Inl (UnsupportedOS ''freebsd'')
   \<and> fst (getLatestRelease (host\<lparr>GOOS := ''freebsd''\<rparr>) (start [])) = Inr release1
   \<and> fst (main_select (host\<lparr>GOOS := ''freebsd''\<rparr>) ''/home/u/.solvm'' (start [])) = 1
   \<and> requests (snd (main_select (host\<lparr>GOOS := ''freebsd''\<rparr>) ''/home/u/.solvm'' (start [])))
       = [HttpGet releasesURL]
   \<and> GOARCH (host\<lparr>GOARCH := ''riscv64''\<rparr>) \<notin> supportedArch
   \<and> GOOS (host\<lparr>GOARCH := ''riscv64''\<rparr>) \<in> supportedOS
   \<and> getSystemAsset (host\<lparr>GOARCH := ''riscv64''\<rparr>) release1
       = Inl (UnsupportedArch ''riscv64'')"
proof -
  let ?bsd = "host\<lparr>GOOS := ''freebsd''\<rparr>"
  let ?rv = "host\<lparr>GOARCH := ''riscv64''\<rparr>"
  have b: "GOOS ?bsd \<notin> supportedOS" by (simp add: supportedOS_def)
  then have b': "GOOS ?bsd \<notin> supportedOS \<or> GOARCH ?bsd \<notin> supportedArch" ..
  have r: "GOARCH ?rv \<notin> supportedArch" by (simp add: supportedArch_def)
  then have r': "GOOS ?rv \<notin> supportedOS \<or> GOARCH ?rv \<notin> supportedArch" ..
  have o: "GOOS ?rv \<in> supportedOS" by (simp add: host_def supportedOS_def)
  have g: "fst (getLatestRelease ?bsd (start [])) = Inr release1"
    by (simp add: getLatestRelease_def host_def Let_def)
  have q: "requests (start []) = []" by (simp add: requests_def start_def)
  have 1: "getSystemAsset ?bsd release1 = Inl (UnsupportedOS ''freebsd'')
         \<and> fst (main_select ?bsd ''/home/u/.solvm'' (start [])) = 1
         \<and> requests (snd (main_select ?bsd ''/home/u/.solvm'' (start [])))
             = [HttpGet releasesURL]"
    using getSystemAsset_unsupported [OF b', of release1 "start []" "''/home/u/.solvm''"] b g q
    by simp
  have 2: "getSystemAsset ?rv release1 = Inl (UnsupportedArch ''riscv64'')"
    using getSystemAsset_unsupported [OF r', of release1] o by simp
  show ?thesis using b r o g 1 2 by blast
qed

section \<open>Properties of the confirmation prompt\<close>

lemma ReadString_line:
  assumes "newline \<notin> set line"
  shows "ReadString (line @ newline # rest) = (line @ [newline], None, rest)"
proof -
  have t: "takeWhile (\<lambda>c. c \<noteq> newline) (line @ newline # rest) = line"
    using assms by (induction line) auto
  have d: "dropWhile (\<lambda>c. c \<noteq> newline) (line @ newline # rest) = newline # rest"
    using assms by (induction line) auto
  show ?thesis by (simp add: ReadString_def t d)
qed

lemma ReadString_EOF:
  assumes "newline \<notin> set input"
  shows "ReadString input = (input, Some (LibError ''EOF''), [])"
  using assms by (simp add: ReadString_def)

lemma askForConfirmation_loop_EOF:
  assumes "newline \<notin> set input"
  shows "askForConfirmation_loop message input = ([Printf (message @ '' [y/N]: '')], False)"
  by (subst askForConfirmation_loop.simps) (simp add: ReadString_EOF [OF assms])

lemma askForConfirmation_loop_line:
  assumes "newline \<notin> set line"
  shows "askForConfirmation_loop message (line @ newline # rest) =
           (let response = ToLower (TrimSpace (line @ [newline])) in
            if response = ''y'' \<or> response = ''yes'' then
              ([Printf (message @ '' [y/N]: '')], True)
            else if response = ''n'' \<or> response = ''no'' \<or> response = [] then
              ([Printf (message @ '' [y/N]: '')], False)
            else
              (case askForConfirmation_loop message rest of
                 (prompts, answer) \<Rightarrow> (Printf (message @ '' [y/N]: '') # prompts, answer)))"
  by (subst askForConfirmation_loop.simps) (simp add: ReadString_line [OF assms])

lemma askForConfirmation_loop_True:
  "snd (askForConfirmation_loop message input) \<Longrightarrow>
     \<exists>before line rest.
        input = before @ line @ newline # rest \<and> newline \<notin> set line \<and>
        (before = [] \<or> last before = newline) \<and>
        (ToLower (TrimSpace (line @ [newline])) = ''y'' \<or>
         ToLower (TrimSpace (line @ [newline])) = ''yes'')"
proof (induction input rule: length_induct)
  case (1 input)
  show ?case
  proof (cases "newline \<in> set input")
    case False
    with "1.prems" show ?thesis by (simp add: askForConfirmation_loop_EOF)
  next
    case True
    then obtain line rest where input: "input = line @ newline # rest"
      and line: "newline \<notin> set line"
      by (auto dest: split_list_first)
    let ?r = "ToLower (TrimSpace (line @ [newline]))"
    show ?thesis
    proof (cases "?r = ''y'' \<or> ?r = ''yes''")
      case True
      with input line have "input = [] @ line @ newline # rest \<and> newline \<notin> set line \<and>
          (([]::string) = [] \<or> last [] = newline) \<and> (?r = ''y'' \<or> ?r = ''yes'')"
        by simp
      then show ?thesis by blast
    next
      case no: False
      show ?thesis
      proof (cases "?r = ''n'' \<or> ?r = ''no'' \<or> ?r = []")
        case True
        with no "1.prems" input line show ?thesis
          by (simp add: askForConfirmation_loop_line Let_def)
      next
        case False
        with no "1.prems" input line have "snd (askForConfirmation_loop message rest)"
          by (simp add: askForConfirmation_loop_line Let_def split: prod.splits)
        moreover have "length rest < length input" using input by simp
        ultimately obtain before' line' rest' where
          rest: "rest = before' @ line' @ newline # rest'" and
          line': "newline \<notin> set line'" and
          before': "before' = [] \<or> last before' = newline" and
          yes: "ToLower (TrimSpace (line' @ [newline])) = ''y'' \<or>
                ToLower (TrimSpace (line' @ [newline])) = ''yes''"
          using "1.IH" by blast
        have "input = (line @ newline # before') @ line' @ newline # rest'"
          using input rest by simp
        moreover have "last (line @ newline # before') = newline"
          using before' by (cases "before' = []") simp_all
        ultimately have "input = (line @ newline # before') @ line' @ newline # rest' \<and>
            newline \<notin> set line' \<and>
            (line @ newline # before' = [] \<or> last (line @ newline # before') = newline) \<and>
            (ToLower (TrimSpace (line' @ [newline])) = ''y'' \<or>
             ToLower (TrimSpace (line' @ [newline])) = ''yes'')"
          using line' yes by blast
        then show ?thesis by blast
      qed
    qed
  qed
qed


lemma askForConfirmation_loop_prompts:
  "\<forall>e \<in> set (fst (askForConfirmation_loop message input)). \<not> isHttpGet e"
proof (induction input rule: length_induct)
  case (1 input)
  show ?case
  proof (cases "newline \<in> set input")
    case False
    then show ?thesis by (simp add: askForConfirmation_loop_EOF)
  next
    case True
    then obtain line rest where input: "input = line @ newline # rest"
      and line: "newline \<notin> set line"
      by (auto dest: split_list_first)
    have "length rest < length input" using input by simp
    with "1.IH" have "\<forall>e \<in> set (fst (askForConfirmation_loop message rest)). \<not> isHttpGet e"
      by blast
    then show ?thesis
      unfolding input askForConfirmation_loop_line [OF line]
      by (simp add: Let_def split: prod.splits)
  qed
qed

lemma askForConfirmation_answer:
  "fst (askForConfirmation message s) =
     snd (askForConfirmation_loop message (case stdin s of [] \<Rightarrow> [] | i # is \<Rightarrow> i))"
  by (simp add: askForConfirmation_def split: list.splits prod.splits)

lemma askForConfirmation_files: "files (snd (askForConfirmation message s)) = files s"
  by (simp add: askForConfirmation_def split: list.splits prod.splits)

lemma askForConfirmation_requests: "requests (snd (askForConfirmation message s)) = requests s"
proof -
  obtain input later where i: "(case stdin s of [] \<Rightarrow> ([], []) | i # is \<Rightarrow> (i, is)) = (input, later)"
    by (cases "case stdin s of [] \<Rightarrow> ([], []) | i # is \<Rightarrow> (i, is)") auto
  obtain prompts answer where l: "askForConfirmation_loop message input = (prompts, answer)"
    by (cases "askForConfirmation_loop message input") auto
  have "\<forall>e \<in> set prompts. \<not> isHttpGet e"
    using askForConfirmation_loop_prompts [of message input] l by simp
  then have "filter isHttpGet prompts = []" by (simp add: filter_empty_conv)
  then show ?thesis
    by (simp add: askForConfirmation_def i l requests_def)
qed

lemma askForConfirmation_emit:
  "fst (askForConfirmation message (emit e s)) = fst (askForConfirmation message s)"
  by (simp add: askForConfirmation_answer emit_def)

lemma askForConfirmation_unfold:
  "askForConfirmation message s =
     (snd (askForConfirmation_loop message (case stdin s of [] \<Rightarrow> [] | i # is \<Rightarrow> i)),
      s\<lparr>trace := trace s @
                 fst (askForConfirmation_loop message
                        (case stdin s of [] \<Rightarrow> [] | i # is \<Rightarrow> i)),
        stdin := tl (stdin s)\<rparr>)"
  by (simp add: askForConfirmation_def split: list.splits prod.splits)

text \<open>
  C3, as the code has it. Every pass of the loop prints the prompt and reads a line. A
  line that after trimming and lower-casing is \<open>y\<close> or \<open>yes\<close> makes the function return
  true. A line that is \<open>n\<close>, \<open>no\<close> or empty makes it return false, and so does input
  that ends before a newline is read, whatever it holds. Any other line is not taken as
  declining: the prompt is printed again and the input that follows decides. So the
  function returns true only if a complete line of the input is \<open>y\<close> or \<open>yes\<close>.
\<close>

theorem askForConfirmation_declines:
  "(newline \<notin> set line \<and>
      (ToLower (TrimSpace (line @ [newline])) = ''n'' \<or>
       ToLower (TrimSpace (line @ [newline])) = ''no'' \<or>
       ToLower (TrimSpace (line @ [newline])) = []) \<longrightarrow>
      askForConfirmation_loop message (line @ newline # rest)
        = ([Printf (message @ '' [y/N]: '')], False))
   \<and> (newline \<notin> set line \<and>
        ToLower (TrimSpace (line @ [newline])) \<notin> {''y'', ''yes'', ''n'', ''no'', []} \<longrightarrow>
      askForConfirmation_loop message (line @ newline # rest)
        = (Printf (message @ '' [y/N]: '') # fst (askForConfirmation_loop message rest),
           snd (askForConfirmation_loop message rest)))
   \<and> (newline \<notin> set line \<and>
        (ToLower (TrimSpace (line @ [newline])) = ''y'' \<or>
         ToLower (TrimSpace (line @ [newline])) = ''yes'') \<longrightarrow>
      askForConfirmation_loop message (line @ newline # rest)
        = ([Printf (message @ '' [y/N]: '')], True))
   \<and> (newline \<notin> set input \<longrightarrow>
        askForConfirmation_loop message input = ([Printf (message @ '' [y/N]: '')], False))
   \<and> (snd (askForConfirmation_loop message input) \<longrightarrow>
        (\<exists>before line rest.
            input = before @ line @ newline # rest \<and> newline \<notin> set line \<and>
            (before = [] \<or> last before = newline) \<and>
            (ToLower (TrimSpace (line @ [newline])) = ''y'' \<or>
             ToLower (TrimSpace (line @ [newline])) = ''yes'')))
   \<and> askForConfirmation message s =
        (snd (askForConfirmation_loop message (case stdin s of [] \<Rightarrow> [] | i # is \<Rightarrow> i)),
         s\<lparr>trace := trace s @
                    fst (askForConfirmation_loop message
                           (case stdin s of [] \<Rightarrow> [] | i # is \<Rightarrow> i)),
           stdin := tl (stdin s)\<rparr>)"
proof -
  let ?r = "ToLower (TrimSpace (line @ [newline]))"
  let ?p = "Printf (message @ '' [y/N]: '')"
  have 1: "askForConfirmation_loop message (line @ newline # rest) = ([?p], False)"
    if "newline \<notin> set line" and "?r = ''n'' \<or> ?r = ''no'' \<or> ?r = []"
    using that(2) by (auto simp: askForConfirmation_loop_line [OF that(1)] Let_def)
  have 2: "askForConfirmation_loop message (line @ newline # rest)
             = (?p # fst (askForConfirmation_loop message rest),
                snd (askForConfirmation_loop message rest))"
    if "newline \<notin> set line" and "?r \<notin> {''y'', ''yes'', ''n'', ''no'', []}"
    using that(2)
    by (simp add: askForConfirmation_loop_line [OF that(1)] Let_def split: prod.splits)
  have 3: "askForConfirmation_loop message (line @ newline # rest) = ([?p], True)"
    if "newline \<notin> set line" and "?r = ''y'' \<or> ?r = ''yes''"
    using that(2) by (auto simp: askForConfirmation_loop_line [OF that(1)] Let_def)
  have 4: "askForConfirmation_loop message input = ([?p], False)" if "newline \<notin> set input"
    by (rule askForConfirmation_loop_EOF [OF that])
  show ?thesis
    using 1 2 3 4 askForConfirmation_loop_True [of message input]
      askForConfirmation_unfold [of message s]
    by blast
qed

theorem askForConfirmation_declines_witness:
  "newline \<notin> set '' No ''
   \<and> ToLower (TrimSpace ('' No '' @ [newline])) = ''no''
   \<and> askForConfirmation_loop ''Do you want to install SolVM?''
        ('' No '' @ newline # ''y'' @ [newline])
       = ([Printf ''Do you want to install SolVM? [y/N]: ''], False)
   \<and> newline \<notin> set ''maybe''
   \<and> ToLower (TrimSpace (''maybe'' @ [newline])) = ''maybe''
   \<and> newline \<notin> set ''YES''
   \<and> ToLower (TrimSpace (''YES'' @ [newline])) = ''yes''
   \<and> askForConfirmation_loop ''Do you want to install SolVM?''
        (''maybe'' @ newline # ''YES'' @ [newline])
       = ([Printf ''Do you want to install SolVM? [y/N]: '',
           Printf ''Do you want to install SolVM? [y/N]: ''], True)
   \<and> newline \<notin> set ''y''
   \<and> askForConfirmation_loop ''Do you want to install SolVM?'' ''y''
       = ([Printf ''Do you want to install SolVM? [y/N]: ''], False)
   \<and> (\<exists>before line rest.
          ''maybe'' @ newline # ''YES'' @ [newline] = before @ line @ newline # rest \<and>
          newline \<notin> set line \<and> (before = [] \<or> last before = newline) \<and>
          (ToLower (TrimSpace (line @ [newline])) = ''y'' \<or>
           ToLower (TrimSpace (line @ [newline])) = ''yes''))
   \<and> askForConfirmation ''Do you want to install SolVM?''
        (start [''n'' @ [newline], ''y'' @ [newline]])
       = (False,
          \<lparr>trace = [Printf ''Do you want to install SolVM? [y/N]: ''], files = disk,
           stdin = [''y'' @ [newline]]\<rparr>)"
proof -
  let ?m = "''Do you want to install SolVM?''"
  let ?p = "Printf ''Do you want to install SolVM? [y/N]: ''"
  have n1: "newline \<notin> set '' No ''" and n2: "newline \<notin> set ''maybe''"
    and n3: "newline \<notin> set ''y''" and n4: "newline \<notin> set ''n''"
    and n5: "newline \<notin> set ''YES''"
    by (simp_all add: newline_def)
  have r1: "ToLower (TrimSpace ('' No '' @ [newline])) = ''no''" by code_simp
  have r2: "ToLower (TrimSpace (''maybe'' @ [newline])) = ''maybe''" by code_simp
  then have r2': "ToLower (TrimSpace (''maybe'' @ [newline]))
                    \<notin> {''y'', ''yes'', ''n'', ''no'', []}"
    by simp
  have r4: "ToLower (TrimSpace (''n'' @ [newline])) = ''n''" by code_simp
  have r5: "ToLower (TrimSpace (''YES'' @ [newline])) = ''yes''" by code_simp
  have 1: "askForConfirmation_loop ?m ('' No '' @ newline # ''y'' @ [newline]) = ([?p], False)"
    using askForConfirmation_declines [of "'' No ''" ?m "''y'' @ [newline]"] n1 r1 by simp
  have y: "askForConfirmation_loop ?m (''YES'' @ newline # []) = ([?p], True)"
    using askForConfirmation_declines [of "''YES''" ?m "[]"] n5 r5 by simp
  have "askForConfirmation_loop ?m (''maybe'' @ newline # ''YES'' @ [newline])
          = (Printf (?m @ '' [y/N]: '') # fst (askForConfirmation_loop ?m (''YES'' @ [newline])),
             snd (askForConfirmation_loop ?m (''YES'' @ [newline])))"
    using askForConfirmation_declines [of "''maybe''" ?m "''YES'' @ [newline]"] n2 r2' by blast
  then have 2: "askForConfirmation_loop ?m (''maybe'' @ newline # ''YES'' @ [newline])
                  = ([?p, ?p], True)"
    using y by simp
  have 3: "askForConfirmation_loop ?m ''y'' = ([?p], False)"
    using askForConfirmation_declines [of _ ?m _ "''y''"] n3 by simp
  have "snd (askForConfirmation_loop ?m (''maybe'' @ newline # ''YES'' @ [newline]))"
    unfolding 2 by simp
  then have 4: "\<exists>before line rest.
          ''maybe'' @ newline # ''YES'' @ [newline] = before @ line @ newline # rest \<and>
          newline \<notin> set line \<and> (before = [] \<or> last before = newline) \<and>
          (ToLower (TrimSpace (line @ [newline])) = ''y'' \<or>
           ToLower (TrimSpace (line @ [newline])) = ''yes'')"
    using askForConfirmation_declines [of _ ?m _ "''maybe'' @ newline # ''YES'' @ [newline]"]
    by blast
  have n: "askForConfirmation_loop ?m (''n'' @ newline # []) = ([?p], False)"
    using askForConfirmation_declines [of "''n''" ?m "[]"] n4 r4 by simp
  have "askForConfirmation ?m (start [''n'' @ [newline], ''y'' @ [newline]]) =
          (snd (askForConfirmation_loop ?m
                  (case stdin (start [''n'' @ [newline], ''y'' @ [newline]]) of
                     [] \<Rightarrow> [] | i # is \<Rightarrow> i)),
           (start [''n'' @ [newline], ''y'' @ [newline]])
             \<lparr>trace := trace (start [''n'' @ [newline], ''y'' @ [newline]]) @
                  fst (askForConfirmation_loop ?m
                         (case stdin (start [''n'' @ [newline], ''y'' @ [newline]]) of
                            [] \<Rightarrow> [] | i # is \<Rightarrow> i)),
               stdin := tl (stdin (start [''n'' @ [newline], ''y'' @ [newline]]))\<rparr>)"
    using askForConfirmation_declines
            [of _ ?m _ _ "start [''n'' @ [newline], ''y'' @ [newline]]"]
    by blast
  then have 5: "askForConfirmation ?m (start [''n'' @ [newline], ''y'' @ [newline]])
       = (False, \<lparr>trace = [?p], files = disk, stdin = [''y'' @ [newline]]\<rparr>)"
    using n by (simp add: start_def)
  show ?thesis using n1 n2 n3 n5 r1 r2 r5 1 2 3 4 5 by blast
qed

theorem askForConfirmation_repeats_counterexample:
  "ToLower (TrimSpace (''maybe'' @ [newline])) \<noteq> ''y''
   \<and> ToLower (TrimSpace (''maybe'' @ [newline])) \<noteq> ''yes''
   \<and> fst (askForConfirmation ''Do you want to install SolVM?''
            (start [''maybe'' @ [newline] @ ''y'' @ [newline]])) = True"
proof -
  have "ToLower (TrimSpace (''maybe'' @ [newline])) = ''maybe''" by code_simp
  moreover have "snd (askForConfirmation_loop ''Do you want to install SolVM?''
                        (''maybe'' @ [newline] @ ''y'' @ [newline]))"
    by code_simp
  ultimately show ?thesis
    by (simp add: askForConfirmation_answer start_def)
qed

section \<open>Properties of the Release Locator\<close>

text \<open>
  C4. When the request succeeds and the body decodes to a release list, the locator
  returns the first element of a non-empty list as it is, tag and assets in their
  order, and the error "no releases found" on the empty list.
\<close>

theorem getLatestRelease_first:
  assumes "httpGet w releasesURL = Inr resp" and "decodeReleases w resp = Inr releases"
  shows "(releases = [] \<longrightarrow> fst (getLatestRelease w s) = Inl NoReleasesFound)
       \<and> (\<forall>release later. releases = release # later \<longrightarrow>
            fst (getLatestRelease w s) = Inr release \<and>
            (\<exists>r. fst (getLatestRelease w s) = Inr r \<and>
                 TagName r = TagName release \<and> Assets r = Assets release))"
  using assms by (simp add: getLatestRelease_def Let_def)

theorem getLatestRelease_first_witness:
  "httpGet host releasesURL
     = Inr \<lparr>StatusCode = 200, Status = ''200 OK'', ContentLength = - 1,
            Body = ''[...]'', BodyErr = None\<rparr>
   \<and> decodeReleases host
        \<lparr>StatusCode = 200, Status = ''200 OK'', ContentLength = - 1,
         Body = ''[...]'', BodyErr = None\<rparr> = Inr [release1, release2]
   \<and> fst (getLatestRelease host (start [])) = Inr release1
   \<and> decodeReleases (host\<lparr>decodeReleases := (\<lambda>resp. Inr [])\<rparr>)
        \<lparr>StatusCode = 200, Status = ''200 OK'', ContentLength = - 1,
         Body = ''[...]'', BodyErr = None\<rparr> = Inr []
   \<and> fst (getLatestRelease (host\<lparr>decodeReleases := (\<lambda>resp. Inr [])\<rparr>) (start []))
       = Inl NoReleasesFound"
proof -
  let ?resp = "\<lparr>StatusCode = 200, Status = ''200 OK'', ContentLength = - 1,
                 Body = ''[...]'', BodyErr = None\<rparr>"
  let ?none = "host\<lparr>decodeReleases := (\<lambda>resp. Inr [])\<rparr>"
  have h: "httpGet host releasesURL = Inr ?resp" by (simp add: host_def)
  have d: "decodeReleases host ?resp = Inr [release1, release2]" by (simp add: host_def)
  have h': "httpGet ?none releasesURL = Inr ?resp" by (simp add: host_def)
  have d': "decodeReleases ?none ?resp = Inr []" by simp
  have 1: "fst (getLatestRelease host (start [])) = Inr release1"
    using getLatestRelease_first [OF h d, of "start []"] by simp
  have 2: "fst (getLatestRelease ?none (start [])) = Inl NoReleasesFound"
    using getLatestRelease_first [OF h' d', of "start []"] by simp
  show ?thesis using h d d' 1 2 by blast
qed

section \<open>Properties of the Path Registrar\<close>

lemma Write_complete: "snd (Write w path data) = None \<Longrightarrow> fst (Write w path data) = data"
  by (auto simp: Write_def split: option.splits if_splits)

lemma addToPath_result:
  "files s = files s' \<Longrightarrow> fst (addToPath w installDir s) = fst (addToPath w installDir s')"
  by (simp add: addToPath_def Let_def split: option.splits prod.splits)

lemma addToPath_posix_success:
  assumes "GOOS w = ''darwin'' \<or> GOOS w = ''linux''"
    and "files s (rcFile w) = Some content"
    and "openFileErr w (rcFile w) = None"
    and "snd (Write w (rcFile w) (pathLine installDir)) = None"
  shows "addToPath w installDir s =
           (cmdRun w ''source'' [rcFile w],
            emit (Exec ''source'' [rcFile w])
              (s\<lparr>files := (files s)(rcFile w \<mapsto> content @ pathLine installDir)\<rparr>))"
proof -
  have nw: "GOOS w \<noteq> ''windows''" using assms(1) by auto
  have "Write w (rcFile w) (pathLine installDir) = (pathLine installDir, None)"
    using assms(4) Write_complete [OF assms(4)] by (metis prod.collapse)
  then show ?thesis
    using assms(1,2,3) nw by (simp add: addToPath_def)
qed

lemma addToPath_posix_other_files:
  assumes "GOOS w = ''darwin'' \<or> GOOS w = ''linux''" and "p \<noteq> rcFile w"
  shows "files (snd (addToPath w installDir s)) p = files s p"
proof -
  have nw: "GOOS w \<noteq> ''windows''" using assms(1) by auto
  show ?thesis
    using assms nw
    by (simp add: addToPath_def emit_def split: option.splits prod.splits)
qed

text \<open>
  C9. On darwin and linux the registrar works on the file that \<^verbatim>\<open>filepath.Join\<close> makes
  of \<open>HOME\<close> and \<open>.zshrc\<close> when \<open>SHELL\<close> contains \<open>zsh\<close>, of \<open>HOME\<close> and \<open>.bashrc\<close>
  otherwise (for a clean \<open>HOME\<close> other than the root and \<open>.\<close>: \<open>HOME\<close>, a slash and
  that name), and touches no other file. The line is a newline, \<open>export PATH="\<close>, the
  install directory, \<open>:$PATH"\<close> and a newline. Whatever the file holds, when it can be
  opened and written the line is appended to it and the file changes, so that a second
  registration appends the line a second time.
\<close>

theorem addToPath_posix_appends:
  assumes "GOOS w = ''darwin'' \<or> GOOS w = ''linux''"
  shows "rcFile w =
           Join w (Getenv w ''HOME'')
             (if Contains (Getenv w ''SHELL'') ''zsh'' then ''.zshrc'' else ''.bashrc'')
       \<and> (Clean (Getenv w ''HOME'') = Getenv w ''HOME'' \<and>
          Getenv w ''HOME'' \<noteq> ''/'' \<and> Getenv w ''HOME'' \<noteq> ''.'' \<longrightarrow>
            rcFile w =
              Getenv w ''HOME'' @
                (if Contains (Getenv w ''SHELL'') ''zsh'' then ''/.zshrc'' else ''/.bashrc''))
       \<and> (\<forall>p. p \<noteq> rcFile w \<longrightarrow> files (snd (addToPath w installDir s)) p = files s p)
       \<and> pathLine installDir =
           newline # ''export PATH='' @ dquote # installDir @ '':$PATH'' @ [dquote, newline]
       \<and> (\<forall>content.
             files s (rcFile w) = Some content \<and> openFileErr w (rcFile w) = None \<and>
             snd (Write w (rcFile w) (pathLine installDir)) = None \<longrightarrow>
               files (snd (addToPath w installDir s)) (rcFile w)
                 = Some (content @ pathLine installDir) \<and>
               files (snd (addToPath w installDir s)) (rcFile w) \<noteq> files s (rcFile w) \<and>
               files (snd (addToPath w installDir (snd (addToPath w installDir s)))) (rcFile w)
                 = Some (content @ pathLine installDir @ pathLine installDir))"
proof -
  let ?home = "Getenv w ''HOME''"
  have nw: "GOOS w \<noteq> ''windows''" using assms by auto
  have rc: "rcFile w =
           Join w ?home (if Contains (Getenv w ''SHELL'') ''zsh'' then ''.zshrc'' else ''.bashrc'')"
    by (simp add: rcFile_def)
  have pz: "plainName ''.zshrc''" and pb: "plainName ''.bashrc''"
    by (simp_all add: plainName_def)
  have clean: "rcFile w =
           ?home @ (if Contains (Getenv w ''SHELL'') ''zsh'' then ''/.zshrc'' else ''/.bashrc'')"
    if h: "Clean ?home = ?home" "?home \<noteq> ''/''" "?home \<noteq> ''.''"
    using Join_clean_dir [OF nw pz h] Join_clean_dir [OF nw pb h]
    by (simp add: rcFile_def)
  have line: "pathLine installDir =
           newline # ''export PATH='' @ dquote # installDir @ '':$PATH'' @ [dquote, newline]"
    by (simp add: pathLine_def)
  have twice: "files (snd (addToPath w installDir s)) (rcFile w)
                 = Some (content @ pathLine installDir) \<and>
               files (snd (addToPath w installDir s)) (rcFile w) \<noteq> files s (rcFile w) \<and>
               files (snd (addToPath w installDir (snd (addToPath w installDir s)))) (rcFile w)
                 = Some (content @ pathLine installDir @ pathLine installDir)"
    if c: "files s (rcFile w) = Some content" and o: "openFileErr w (rcFile w) = None"
      and wr: "snd (Write w (rcFile w) (pathLine installDir)) = None"
    for content
  proof -
    let ?s1 = "snd (addToPath w installDir s)"
    have 1: "files ?s1 (rcFile w) = Some (content @ pathLine installDir)"
      by (simp add: addToPath_posix_success [OF assms c o wr] emit_def)
    have 2: "files (snd (addToPath w installDir ?s1)) (rcFile w)
               = Some ((content @ pathLine installDir) @ pathLine installDir)"
      by (simp add: addToPath_posix_success [OF assms 1 o wr] emit_def)
    have "pathLine installDir \<noteq> []" by (simp add: pathLine_def)
    then have 3: "files ?s1 (rcFile w) \<noteq> files s (rcFile w)"
      by (simp add: 1 c)
    from 1 2 3 show ?thesis by simp
  qed
  show ?thesis
    using rc clean addToPath_posix_other_files [OF assms] line twice by blast
qed

theorem addToPath_posix_appends_witness:
  "(GOOS host = ''darwin'' \<or> GOOS host = ''linux'')
   \<and> Clean (Getenv host ''HOME'') = Getenv host ''HOME''
   \<and> Getenv host ''HOME'' \<noteq> ''/''
   \<and> Getenv host ''HOME'' \<noteq> ''.''
   \<and> rcFile host = ''/home/u/.bashrc''
   \<and> rcFile (host\<lparr>Getenv := (\<lambda>k. if k = ''HOME'' then ''/Users/u/'' else ''/bin/zsh''),
                   GOOS := ''darwin''\<rparr>) = ''/Users/u/.zshrc''
   \<and> rcFile (host\<lparr>Getenv := (\<lambda>k. if k = ''HOME'' then ''/'' else ''/bin/bash'')\<rparr>)
       = ''/.bashrc''
   \<and> rcFile (host\<lparr>Getenv := (\<lambda>k. if k = ''HOME'' then [] else ''/bin/bash'')\<rparr>)
       = ''.bashrc''
   \<and> files (start []) (rcFile host) = Some ''# rc''
   \<and> openFileErr host (rcFile host) = None
   \<and> snd (Write host (rcFile host) (pathLine ''/home/u/.solvm'')) = None
   \<and> files (snd (addToPath host ''/home/u/.solvm'' (start []))) ''/home/u/.bashrc''
       = Some (''# rc'' @ newline # ''export PATH='' @ dquote # ''/home/u/.solvm:$PATH''
                 @ [dquote, newline])
   \<and> files (snd (addToPath host ''/home/u/.solvm''
                    (snd (addToPath host ''/home/u/.solvm'' (start []))))) ''/home/u/.bashrc''
       = Some (''# rc'' @ pathLine ''/home/u/.solvm'' @ pathLine ''/home/u/.solvm'')
   \<and> files (snd (addToPath host ''/home/u/.solvm'' (start []))) ''/home/u/.solvm/solvm''
       = Some ''OLD''"
proof -
  let ?mac = "host\<lparr>Getenv := (\<lambda>k. if k = ''HOME'' then ''/Users/u/'' else ''/bin/zsh''),
                    GOOS := ''darwin''\<rparr>"
  let ?root = "host\<lparr>Getenv := (\<lambda>k. if k = ''HOME'' then ''/'' else ''/bin/bash'')\<rparr>"
  let ?none = "host\<lparr>Getenv := (\<lambda>k. if k = ''HOME'' then [] else ''/bin/bash'')\<rparr>"
  have l: "GOOS host = ''darwin'' \<or> GOOS host = ''linux''" by (simp add: host_def)
  have m: "GOOS ?mac = ''darwin'' \<or> GOOS ?mac = ''linux''" by simp
  have r: "GOOS ?root = ''darwin'' \<or> GOOS ?root = ''linux''" by (simp add: host_def)
  have n: "GOOS ?none = ''darwin'' \<or> GOOS ?none = ''linux''" by (simp add: host_def)
  have h1: "Clean (Getenv host ''HOME'') = Getenv host ''HOME''" by code_simp
  have h2: "Getenv host ''HOME'' \<noteq> ''/''" and h3: "Getenv host ''HOME'' \<noteq> ''.''"
    by (simp_all add: host_def)
  have g: "Getenv host ''HOME'' = ''/home/u''"
    and sh: "\<not> Contains (Getenv host ''SHELL'') ''zsh''"
    by (simp_all add: host_def)
  have "rcFile host =
          Getenv host ''HOME'' @
            (if Contains (Getenv host ''SHELL'') ''zsh'' then ''/.zshrc'' else ''/.bashrc'')"
    using addToPath_posix_appends [OF l, THEN conjunct2, THEN conjunct1] h1 h2 h3 by blast
  then have rc: "rcFile host = ''/home/u/.bashrc''"
    by (simp add: g sh)
  have "Join ?mac (Getenv ?mac ''HOME'')
          (if Contains (Getenv ?mac ''SHELL'') ''zsh'' then ''.zshrc'' else ''.bashrc'')
        = ''/Users/u/.zshrc''"
    by code_simp
  with addToPath_posix_appends [OF m, THEN conjunct1]
  have rc': "rcFile ?mac = ''/Users/u/.zshrc''" by (rule trans)
  have "Join ?root (Getenv ?root ''HOME'')
          (if Contains (Getenv ?root ''SHELL'') ''zsh'' then ''.zshrc'' else ''.bashrc'')
        = ''/.bashrc''"
    by code_simp
  with addToPath_posix_appends [OF r, THEN conjunct1]
  have rc'': "rcFile ?root = ''/.bashrc''" by (rule trans)
  have "Join ?none (Getenv ?none ''HOME'')
          (if Contains (Getenv ?none ''SHELL'') ''zsh'' then ''.zshrc'' else ''.bashrc'')
        = ''.bashrc''"
    by code_simp
  with addToPath_posix_appends [OF n, THEN conjunct1]
  have rc''': "rcFile ?none = ''.bashrc''" by (rule trans)
  have c: "files (start []) (rcFile host) = Some ''# rc''"
    by (simp add: rc start_def disk_def)
  have o: "openFileErr host (rcFile host) = None" by (simp add: host_def)
  have wr: "snd (Write host (rcFile host) (pathLine ''/home/u/.solvm'')) = None"
    by (simp add: Write_def host_def)
  have ne: "''/home/u/.solvm/solvm'' \<noteq> rcFile host" by (simp add: rc)
  have pl: "pathLine ''/home/u/.solvm'' =
              newline # ''export PATH='' @ dquote # ''/home/u/.solvm:$PATH'' @ [dquote, newline]"
    using addToPath_posix_appends [OF l, of "''/home/u/.solvm''"] by simp
  have 1: "files (snd (addToPath host ''/home/u/.solvm'' (start []))) ''/home/u/.bashrc''
             = Some (''# rc'' @ pathLine ''/home/u/.solvm'')
         \<and> files (snd (addToPath host ''/home/u/.solvm''
                    (snd (addToPath host ''/home/u/.solvm'' (start []))))) ''/home/u/.bashrc''
             = Some (''# rc'' @ pathLine ''/home/u/.solvm'' @ pathLine ''/home/u/.solvm'')"
    using addToPath_posix_appends [OF l, of "''/home/u/.solvm''" "start []"] c o wr
    unfolding rc by blast
  then have first: "files (snd (addToPath host ''/home/u/.solvm'' (start []))) ''/home/u/.bashrc''
       = Some (''# rc'' @ newline # ''export PATH='' @ dquote # ''/home/u/.solvm:$PATH''
                 @ [dquote, newline])"
    unfolding pl by blast
  have 2: "files (snd (addToPath host ''/home/u/.solvm'' (start []))) ''/home/u/.solvm/solvm''
             = Some ''OLD''"
    using addToPath_posix_appends [OF l, of "''/home/u/.solvm''" "start []"] ne
    by (simp add: start_def disk_def)
  show ?thesis using l h1 h2 h3 rc rc' rc'' rc''' c o wr 1 first 2 by blast
qed

text \<open>
  C10. On darwin and linux, when the rc file is opened and the line is written, the
  result of the registrar is the result of running \<^verbatim>\<open>source\<close>: if that fails, the
  registrar returns its error although the line is in the file.
\<close>

theorem addToPath_error_after_append:
  assumes "GOOS w = ''darwin'' \<or> GOOS w = ''linux''"
    and "files s (rcFile w) = Some content"
    and "openFileErr w (rcFile w) = None"
    and "snd (Write w (rcFile w) (pathLine installDir)) = None"
    and "cmdRun w ''source'' [rcFile w] = Some e"
  shows "fst (addToPath w installDir s) = Some e
       \<and> files (snd (addToPath w installDir s)) (rcFile w) = Some (content @ pathLine installDir)
       \<and> files (snd (addToPath w installDir s)) (rcFile w) \<noteq> files s (rcFile w)
       \<and> trace (snd (addToPath w installDir s)) = trace s @ [Exec ''source'' [rcFile w]]"
proof -
  have "pathLine installDir \<noteq> []" by (simp add: pathLine_def)
  then show ?thesis
    using assms(2,5)
    by (simp add: addToPath_posix_success [OF assms(1-4)] emit_def)
qed

theorem addToPath_error_after_append_witness:
  "(GOOS host = ''darwin'' \<or> GOOS host = ''linux'')
   \<and> files (start []) (rcFile host) = Some ''# rc''
   \<and> openFileErr host (rcFile host) = None
   \<and> snd (Write host (rcFile host) (pathLine ''/home/u/.solvm'')) = None
   \<and> cmdRun host ''source'' [rcFile host]
       = Some (LibError ''exec: source: executable file not found'')
   \<and> fst (addToPath host ''/home/u/.solvm'' (start []))
       = Some (LibError ''exec: source: executable file not found'')
   \<and> files (snd (addToPath host ''/home/u/.solvm'' (start []))) ''/home/u/.bashrc''
       = Some (''# rc'' @ pathLine ''/home/u/.solvm'')"
proof -
  have l: "GOOS host = ''darwin'' \<or> GOOS host = ''linux''" by (simp add: host_def)
  have rc: "rcFile host = ''/home/u/.bashrc''" by code_simp
  have c: "files (start []) (rcFile host) = Some ''# rc''"
    by (simp add: rc start_def disk_def)
  have o: "openFileErr host (rcFile host) = None" by (simp add: host_def)
  have wr: "snd (Write host (rcFile host) (pathLine ''/home/u/.solvm'')) = None"
    by (simp add: Write_def host_def)
  have r: "cmdRun host ''source'' [rcFile host]
             = Some (LibError ''exec: source: executable file not found'')"
    by (simp add: host_def)
  show ?thesis
    using addToPath_error_after_append [OF l c o wr r] l c o wr r
    unfolding rc by blast
qed

section \<open>Properties of the run\<close>

lemma emit_files: "files (emit e s) = files s"
  by (simp add: emit_def)

lemma emit_trace: "trace (emit e s) = trace s @ [e]"
  by (simp add: emit_def)

lemma downloadFile_result:
  "fst (downloadFile w url dest s) = fst (downloadFile w url dest s')"
  by (simp add: downloadFile_def Let_def split: sum.splits option.splits prod.splits)

lemma downloadFile_other_files:
  "p \<noteq> dest \<Longrightarrow> files (snd (downloadFile w url dest s)) p = files s p"
  by (simp add: downloadFile_def Let_def emit_def split: sum.splits option.splits prod.splits)

lemma downloadFile_fails:
  "(httpGet w url = Inl e \<longrightarrow> fst (downloadFile w url dest s) = Some e)
   \<and> (httpGet w url = Inr resp \<and> StatusCode resp \<noteq> 200 \<longrightarrow>
        fst (downloadFile w url dest s) = Some (BadStatus (Status resp)))
   \<and> (httpGet w url = Inr resp \<and> StatusCode resp = 200 \<and> createErr w dest = None \<and>
        writeErr w dest = None \<and> BodyErr resp = Some e \<longrightarrow>
        fst (downloadFile w url dest s) = Some e \<and>
        files (snd (downloadFile w url dest s)) dest = Some (Body resp))"
  by (simp add: downloadFile_def Let_def ioCopy_def Write_def emit_def)

lemma getSystemAsset_Inr:
  assumes "getSystemAsset w release = Inr asset"
  shows "GOOS w \<in> supportedOS \<and> GOARCH w \<in> supportedArch \<and>
         Name asset = assetName (GOOS w) (GOARCH w)"
proof -
  have os: "GOOS w = ''windows'' \<or> GOOS w = ''darwin'' \<or> GOOS w = ''linux''"
    using assms by (auto simp: getSystemAsset_def split: if_splits)
  have ar: "GOARCH w = ''amd64'' \<or> GOARCH w = ''arm64''"
    using assms os by (auto simp: getSystemAsset_def Let_def split: if_splits)
  have "getSystemAsset w release =
          (case rangeAssets (Assets release) (assetName (GOOS w) (GOARCH w)) of
             Some asset \<Rightarrow> Inr asset
           | None \<Rightarrow> Inl (NoMatchingAsset (GOOS w) (GOARCH w)))"
    unfolding getSystemAsset_def Let_def using os ar by presburger
  with assms have "rangeAssets (Assets release) (assetName (GOOS w) (GOARCH w)) = Some asset"
    by (simp split: option.splits)
  then have "Name asset = assetName (GOOS w) (GOARCH w)"
    by (auto simp: rangeAssets_Some)
  with os ar show ?thesis by (simp add: supportedOS_def supportedArch_def)
qed

lemma tempPath_neq_finalPath:
  assumes "getSystemAsset w release = Inr asset"
  shows "tempPath w installDir asset \<noteq> finalPath w installDir"
proof -
  from getSystemAsset_Inr [OF assms]
  have os: "GOOS w = ''windows'' \<or> GOOS w = ''darwin'' \<or> GOOS w = ''linux''"
    and ar: "GOARCH w = ''amd64'' \<or> GOARCH w = ''arm64''"
    and n: "Name asset = assetName (GOOS w) (GOARCH w)"
    by (simp_all add: supportedOS_def supportedArch_def)
  let ?final = "if GOOS w = ''windows'' then ''solvm.exe'' else ''solvm''"
  have pa: "plainName (assetName (GOOS w) (GOARCH w))"
    using os ar by (auto simp: assetName_def plainName_def)
  have pf: "plainName ?final"
    by (simp add: plainName_def)
  have "assetName (GOOS w) (GOARCH w) \<noteq> ?final"
    using os by (auto simp: assetName_def)
  then have neq: "Join w installDir (assetName (GOOS w) (GOARCH w)) \<noteq> Join w installDir ?final"
    by (simp only: Join_plainName_inject [OF pa pf], simp)
  show ?thesis
  proof (cases "GOOS w = ''windows''")
    case True
    with neq show ?thesis by (simp add: tempPath_def finalPath_def n)
  next
    case False
    with neq show ?thesis by (simp add: tempPath_def finalPath_def n)
  qed
qed

text \<open>How the blocks of \<^verbatim>\<open>main\<close> follow one another when no step exits.\<close>

lemma main_select_enters_install:
  assumes "getLatestRelease w s = (Inr release, s1)"
    and "getSystemAsset w release = Inr asset"
    and "askForConfirmation ''Do you want to install SolVM?''
           (emit (Print Yellow (''Found matching asset: '' @ Name asset))
              (emit (Print Green (''Latest version: '' @ TagName release)) s1)) = (True, s2)"
  shows "main_select w installDir s = main_install w installDir asset s2"
  using assms by (simp add: main_select_def Let_def)

lemma main_install_enters_path:
  assumes "mkdirAllErr w installDir = None"
    and "downloadFile w (BrowserDownloadURL asset) (tempPath w installDir asset)
           (emit (Print Yellow (''Downloading to: '' @ tempPath w installDir asset)) s)
         = (None, s1)"
    and "Rename w (tempPath w installDir asset) (finalPath w installDir) s1 = (None, s2)"
    and "GOOS w \<noteq> ''windows'' \<Longrightarrow> chmodErr w (finalPath w installDir) = None"
  shows "main_install w installDir asset s = main_path w installDir s2"
  using assms by (simp add: main_install_def Let_def)

text \<open>
  C6. When the download of the selected asset fails, whatever the reason, the run
  exits with code 1 after the red diagnostic; the file system is as before the run
  everywhere but at the temporary path, so that nothing is created or replaced at the
  final path.
\<close>

theorem main_install_download_fails:
  assumes "getSystemAsset w release = Inr asset"
    and "mkdirAllErr w installDir = None"
    and "fst (downloadFile w (BrowserDownloadURL asset) (tempPath w installDir asset) s) = Some e"
  shows "fst (main_install w installDir asset s) = 1
       \<and> files (snd (main_install w installDir asset s)) (finalPath w installDir)
           = files s (finalPath w installDir)
       \<and> (\<forall>p. p \<noteq> tempPath w installDir asset \<longrightarrow>
             files (snd (main_install w installDir asset s)) p = files s p)
       \<and> last (trace (snd (main_install w installDir asset s)))
           = Print Red (''Error downloading file: '' @ Error e)"
proof -
  let ?t = "tempPath w installDir asset"
  let ?s1 = "emit (Print Yellow (''Downloading to: '' @ ?t)) s"
  let ?d = "downloadFile w (BrowserDownloadURL asset) ?t ?s1"
  have err: "fst ?d = Some e"
    using assms(3) downloadFile_result [of w "BrowserDownloadURL asset" ?t ?s1 s] by simp
  obtain s3 where d: "?d = (Some e, s3)"
    using err by (cases ?d) auto
  have run: "main_install w installDir asset s
               = (1, emit (Print Red (''Error downloading file: '' @ Error e)) (snd ?d))"
    using d by (simp add: main_install_def assms(2) Let_def)
  have other: "files (snd ?d) p = files s p" if "p \<noteq> ?t" for p
    using downloadFile_other_files [OF that, of w "BrowserDownloadURL asset" ?s1]
    by (simp add: emit_files)
  have "finalPath w installDir \<noteq> ?t"
    using tempPath_neq_finalPath [OF assms(1), of installDir] by simp
  then show ?thesis
    using other by (simp add: run emit_files emit_trace)
qed

theorem main_install_download_fails_witness:
  "getSystemAsset host_broken_download release1
     = Inr \<lparr>Name = ''solvm-linux-amd64'', BrowserDownloadURL = ''U2''\<rparr>
   \<and> mkdirAllErr host_broken_download ''/home/u/.solvm'' = None
   \<and> fst (downloadFile host_broken_download ''U2'' ''/home/u/.solvm/solvm-linux-amd64''
             (start [])) = Some (LibError ''unexpected EOF'')
   \<and> fst (main_install host_broken_download ''/home/u/.solvm''
             \<lparr>Name = ''solvm-linux-amd64'', BrowserDownloadURL = ''U2''\<rparr> (start [])) = 1
   \<and> files (snd (main_install host_broken_download ''/home/u/.solvm''
             \<lparr>Name = ''solvm-linux-amd64'', BrowserDownloadURL = ''U2''\<rparr> (start [])))
         ''/home/u/.solvm/solvm'' = Some ''OLD''
   \<and> files (snd (main_install host_broken_download ''/home/u/.solvm''
             \<lparr>Name = ''solvm-linux-amd64'', BrowserDownloadURL = ''U2''\<rparr> (start [])))
         ''/home/u/.solvm/solvm-linux-amd64'' = Some ''ELF''
   \<and> fst (main host_broken_download (start [''y'' @ [newline], ''y'' @ [newline]])) = 1"
proof -
  let ?w = host_broken_download
  let ?a = "\<lparr>Name = ''solvm-linux-amd64'', BrowserDownloadURL = ''U2''\<rparr>"
  have a: "getSystemAsset ?w release1 = Inr ?a" by code_simp
  have m: "mkdirAllErr ?w ''/home/u/.solvm'' = None" by code_simp
  have t: "tempPath ?w ''/home/u/.solvm'' ?a = ''/home/u/.solvm/solvm-linux-amd64''"
    by code_simp
  have f: "finalPath ?w ''/home/u/.solvm'' = ''/home/u/.solvm/solvm''" by code_simp
  have d: "fst (downloadFile ?w ''U2'' ''/home/u/.solvm/solvm-linux-amd64'' (start []))
             = Some (LibError ''unexpected EOF'')"
    by code_simp
  have d': "fst (downloadFile ?w (BrowserDownloadURL ?a) (tempPath ?w ''/home/u/.solvm'' ?a)
                   (start [])) = Some (LibError ''unexpected EOF'')"
    using d by (simp add: t)
  have old: "files (start []) ''/home/u/.solvm/solvm'' = Some ''OLD''"
    by (simp add: start_def disk_def)
  have 1: "fst (main_install ?w ''/home/u/.solvm'' ?a (start [])) = 1
         \<and> files (snd (main_install ?w ''/home/u/.solvm'' ?a (start [])))
             ''/home/u/.solvm/solvm'' = Some ''OLD''"
    using main_install_download_fails [OF a m d'] old by (simp add: f)
  have 2: "files (snd (main_install ?w ''/home/u/.solvm'' ?a (start [])))
             ''/home/u/.solvm/solvm-linux-amd64'' = Some ''ELF''"
    by code_simp
  have 3: "fst (main ?w (start [''y'' @ [newline], ''y'' @ [newline]])) = 1"
    by code_simp
  show ?thesis using a m d 1 2 3 by blast
qed

text \<open>
  C7. When an installation is found and the answer to the first prompt is a refusal,
  the run exits with code 0 after the yellow notice, having made no network request
  and changed no file.
\<close>

theorem main_declined_replacement:
  assumes "UserHomeDir w = Inr homeDir"
    and "checkExistingInstallation w (Join w homeDir ''.solvm'') s"
    and "\<not> fst (askForConfirmation
                  ''SolVM is already installed. Do you want to replace it?'' s)"
  shows "fst (main w s) = 0
       \<and> requests (snd (main w s)) = requests s
       \<and> files (snd (main w s)) = files s
       \<and> last (trace (snd (main w s))) = Print Yellow ''Installation cancelled''"
proof -
  let ?q = "''SolVM is already installed. Do you want to replace it?''"
  let ?s2 = "emit (Print Cyan ''==============='') (emit (Print Cyan ''SolVM Installer'') s)"
  have ex: "checkExistingInstallation w (Join w homeDir ''.solvm'') ?s2"
    using assms(2) by (simp add: checkExistingInstallation_def emit_files)
  have no: "\<not> fst (askForConfirmation ?q ?s2)"
    using assms(3) by (simp add: askForConfirmation_emit)
  obtain s3 where a: "askForConfirmation ?q ?s2 = (False, s3)"
    using no by (cases "askForConfirmation ?q ?s2") auto
  have run: "main w s
               = (0, emit (Print Yellow ''Installation cancelled'')
                       (snd (askForConfirmation ?q ?s2)))"
    using ex a by (simp add: main_def assms(1) Let_def)
  have rq: "requests (snd (askForConfirmation ?q ?s2)) = requests s"
    by (simp add: askForConfirmation_requests) (simp add: requests_def emit_def)
  have "requests (snd (main w s)) = requests s"
    using rq by (simp add: run requests_def emit_def)
  moreover have "files (snd (main w s)) = files s"
    by (simp add: run emit_files askForConfirmation_files)
  ultimately show ?thesis
    by (simp add: run emit_trace)
qed

theorem main_declined_replacement_witness:
  "UserHomeDir host = Inr ''/home/u''
   \<and> checkExistingInstallation host (Join host ''/home/u'' ''.solvm'') (start [[newline]])
   \<and> \<not> fst (askForConfirmation ''SolVM is already installed. Do you want to replace it?''
              (start [[newline]]))
   \<and> fst (main host (start [[newline]])) = 0
   \<and> requests (snd (main host (start [[newline]]))) = []
   \<and> trace (snd (main host (start [[newline]])))
       = [Print Cyan ''SolVM Installer'', Print Cyan ''==============='',
          Printf ''SolVM is already installed. Do you want to replace it? [y/N]: '',
          Print Yellow ''Installation cancelled'']"
proof -
  have h: "UserHomeDir host = Inr ''/home/u''" by (simp add: host_def)
  have c: "checkExistingInstallation host (Join host ''/home/u'' ''.solvm'') (start [[newline]])"
    by code_simp
  have n: "\<not> fst (askForConfirmation
                     ''SolVM is already installed. Do you want to replace it?''
                     (start [[newline]]))"
    by code_simp
  have q: "requests (start [[newline]]) = []" by (simp add: requests_def start_def)
  have 1: "fst (main host (start [[newline]])) = 0
         \<and> requests (snd (main host (start [[newline]]))) = []"
    using main_declined_replacement [OF h c n] q by simp
  have 2: "trace (snd (main host (start [[newline]])))
       = [Print Cyan ''SolVM Installer'', Print Cyan ''==============='',
          Printf ''SolVM is already installed. Do you want to replace it? [y/N]: '',
          Print Yellow ''Installation cancelled'']"
    by code_simp
  show ?thesis using h c n 1 2 by blast
qed

text \<open>
  C8. When the third prompt is answered with yes and the registrar returns an error,
  the run prints the red diagnostic and the yellow request to add the directory by
  hand, then the two completion messages, and returns with exit code 0.
\<close>

theorem main_path_soft_failure:
  assumes "fst (askForConfirmation ''Do you want to add SolVM to your PATH?'' s)"
    and "fst (addToPath w installDir s) = Some e"
  shows "fst (main_path w installDir s) = 0
       \<and> suffix [Print Red (''Error adding to PATH: '' @ Error e),
                  Print Yellow (''Please manually add to PATH: '' @ installDir),
                  Print Green ''Installation complete!'',
                  Print Green ''Please restart your terminal to use SolVM'']
           (trace (snd (main_path w installDir s)))"
proof -
  let ?q = "''Do you want to add SolVM to your PATH?''"
  obtain s1 where a: "askForConfirmation ?q s = (True, s1)"
    using assms(1) by (cases "askForConfirmation ?q s") auto
  let ?s2 = "emit (Print Yellow ''Adding to PATH...'') s1"
  have "files s1 = files s"
    using askForConfirmation_files [of ?q s] by (simp add: a)
  then have "files ?s2 = files s"
    by (simp add: emit_files)
  then have "fst (addToPath w installDir ?s2) = Some e"
    using assms(2) addToPath_result [of ?s2 s w installDir] by simp
  then obtain s3 where r: "addToPath w installDir ?s2 = (Some e, s3)"
    by (cases "addToPath w installDir ?s2") auto
  have run: "main_path w installDir s
               = (0, emit (Print Green ''Please restart your terminal to use SolVM'')
                       (emit (Print Green ''Installation complete!'')
                         (emit (Print Yellow (''Please manually add to PATH: '' @ installDir))
                           (emit (Print Red (''Error adding to PATH: '' @ Error e)) s3))))"
    using a r by (simp add: main_path_def Let_def)
  show ?thesis
    by (simp add: run emit_trace suffix_def)
qed

theorem main_path_soft_failure_witness:
  "fst (askForConfirmation ''Do you want to add SolVM to your PATH?''
          (start ['' Yes'' @ [newline]]))
   \<and> fst (addToPath host ''/home/u/.solvm'' (start ['' Yes'' @ [newline]]))
       = Some (LibError ''exec: source: executable file not found'')
   \<and> fst (main_path host ''/home/u/.solvm'' (start ['' Yes'' @ [newline]])) = 0
   \<and> suffix [Print Red ''Error adding to PATH: exec: source: executable file not found'',
              Print Yellow ''Please manually add to PATH: /home/u/.solvm'',
              Print Green ''Installation complete!'',
              Print Green ''Please restart your terminal to use SolVM'']
        (trace (snd (main_path host ''/home/u/.solvm'' (start ['' Yes'' @ [newline]]))))
   \<and> fst (main host (start [''y'' @ [newline], ''y'' @ [newline], ''y'' @ [newline]])) = 0"
proof -
  let ?s = "start ['' Yes'' @ [newline]]"
  have y: "fst (askForConfirmation ''Do you want to add SolVM to your PATH?'' ?s)"
    by code_simp
  have e: "fst (addToPath host ''/home/u/.solvm'' ?s)
             = Some (LibError ''exec: source: executable file not found'')"
    by code_simp
  have 1: "fst (main host (start [''y'' @ [newline], ''y'' @ [newline], ''y'' @ [newline]])) = 0"
    by code_simp
  show ?thesis
    using main_path_soft_failure [OF y e] y e 1 by simp
qed

end
